theory Spec2Isabelle
  imports Complex_Main
begin

section \<open>Numbers, points and angles\<close>

text \<open>
  The program is TypeScript; a \<open>number\<close> is modelled as a real, so the theorems below speak
  about the exact arithmetic the code approximates with IEEE doubles, except in the two places
  where a rounding decides a discrete outcome: the loop bound of the ladder rungs and the
  normalisation of the course over ground, which are modelled with \<open>roundDouble\<close>.  The two infinities
  that \<open>getXAtY0\<close> returns are values of a type of their own.  Where the source would divide by
  zero (a zero course length in the scale, a corner level with its start mark in
  \<open>getXOnPoly\<close>) it yields an infinity or NaN, which the reals do not have; the theorems are
  stated away from such inputs.  A \<open>Point\<close> is the interface \<open>{x, y}\<close> of \<open>types.ts\<close>; the
  fields are called \<open>px\<close> and \<open>py\<close> here.
\<close>

record Point =
  px :: real
  py :: real

definition toRadians :: "real \<Rightarrow> real" where
  "toRadians deg = (deg * pi) / 180"

definition toDegrees :: "real \<Rightarrow> real" where
  "toDegrees rad = (rad * 180) / pi"

text \<open>
  \<open>Math.atan2(y, x)\<close>: the angle in \<open>(-pi, pi]\<close> of the vector \<open>(x, y)\<close>, and \<open>0\<close> for the
  zero vector.
\<close>

definition atan2 :: "real \<Rightarrow> real \<Rightarrow> real" where
  "atan2 b a =
     (if 0 < a then arctan (b / a)
      else if a < 0 then (if 0 \<le> b then arctan (b / a) + pi else arctan (b / a) - pi)
      else if 0 < b then pi / 2
      else if b < 0 then - (pi / 2)
      else 0)"

text \<open>
  The remainder operator \<open>a % b\<close> of JavaScript on numbers: the quotient is truncated
  towards zero, so the result has the sign of the dividend.
\<close>

definition trunc :: "real \<Rightarrow> int" where
  "trunc r = (if 0 \<le> r then \<lfloor>r\<rfloor> else \<lceil>r\<rceil>)"

definition fmod :: "real \<Rightarrow> real \<Rightarrow> real" where
  "fmod a b = a - b * of_int (trunc (a / b))"

text \<open>
  Rounding of a real to the nearest double (IEEE 754 binary64, ties to even), for magnitudes in
  the normal range: the unit in the last place of \<open>v\<close> is \<open>2\<close> to the power
  \<open>floor (log2 |v|) - 52\<close>.  A sum, product or quotient of doubles is the rounding of the exact
  result.  \<open>double_1_1\<close> is the double that the literal \<open>1.1\<close> denotes.
\<close>

definition rne :: "real \<Rightarrow> int" where
  "rne r =
     (let f = \<lfloor>r\<rfloor>;
          d = r - of_int f
      in if d < 1 / 2 then f
         else if 1 / 2 < d then f + 1
         else if even f then f else f + 1)"

definition roundDouble :: "real \<Rightarrow> real" where
  "roundDouble v =
     (if v = 0 then 0
      else (let e = \<lfloor>log 2 \<bar>v\<bar>\<rfloor>;
                u = 2 powr (of_int e - 52)
            in of_int (rne (v / u)) * u))"

definition double_1_1 :: real where
  "double_1_1 = 2476979795053773 / 2 ^ 51"

section \<open>sailingMath.ts\<close>

definition rotatePoint :: "Point \<Rightarrow> Point \<Rightarrow> real \<Rightarrow> Point" where
  "rotatePoint point center angleDeg =
     (let rad = toRadians angleDeg;
          c = cos rad;
          s = sin rad;
          dx = px point - px center;
          dy = py point - py center
      in \<lparr> px = px center + (dx * c - dy * s), py = py center + (dx * s + dy * c) \<rparr>)"


text \<open>The determinant that \<open>intersectLines\<close> computes from the two compass angles.\<close>

definition lineDet :: "real \<Rightarrow> real \<Rightarrow> real" where
  "lineDet angle1 angle2 =
     sin (toRadians angle1) * (- cos (toRadians angle2))
       - cos (toRadians angle1) * (- sin (toRadians angle2))"

definition intersectLines :: "Point \<Rightarrow> real \<Rightarrow> Point \<Rightarrow> real \<Rightarrow> Point option" where
  "intersectLines p1 angle1 p2 angle2 =
     (let rad1 = toRadians angle1;
          rad2 = toRadians angle2;
          v1x = sin rad1; v1y = cos rad1;
          v2x = sin rad2; v2y = cos rad2;
          dx = px p2 - px p1;
          dy = py p2 - py p1;
          det = lineDet angle1 angle2
      in if \<bar>det\<bar> < 0.0001 then None
         else (let t = (dx * (- v2y) - dy * (- v2x)) / det
               in Some \<lparr> px = px p1 + t * v1x, py = py p1 + t * v1y \<rparr>))"

definition getUpwindTWA :: "real \<Rightarrow> real" where
  "getUpwindTWA windSpeed =
     (if windSpeed \<le> 4 then 50
      else if windSpeed \<ge> 20 then 38
      else if windSpeed < 10 then (let ratio = (windSpeed - 4) / 6 in 50 - ratio * 8)
      else (let ratio = (windSpeed - 10) / 10 in 42 - ratio * 4))"

record TackingAngles =
  portTack :: real
  starboardTack :: real
  twa :: real

definition getTackingAngles :: "real \<Rightarrow> real \<Rightarrow> TackingAngles" where
  "getTackingAngles windDir windSpeed =
     (let t = getUpwindTWA windSpeed
      in \<lparr> portTack = fmod (windDir + t + 360) 360,
           starboardTack = fmod (windDir - t + 360) 360,
           twa = t \<rparr>)"

text \<open>
  The local \<open>baseMaxSpeed\<close> of \<open>calculateBoatSpeed\<close>, after the cap: the light-air ramp with
  its floor below 10 knots, the heavy-air line from 10 knots on, and \<open>Math.min(_, 8.5)\<close>.
\<close>

definition baseMaxSpeed :: "real \<Rightarrow> real" where
  "baseMaxSpeed windSpeed =
     (let b = (if windSpeed < 10
               then (let b0 = windSpeed * 0.7
                     in if b0 < 3 then 3 + windSpeed / 10 else b0)
               else 6.2 + (windSpeed - 10) * 0.1)
      in min b 8.5)"

definition smoothStep :: "real \<Rightarrow> real" where
  "smoothStep t = t * t * (3 - 2 * t)"

text \<open>
  The local \<open>angle\<close> of \<open>calculateBoatSpeed\<close>: \<open>Math.abs(twa > 180 ? 360 - twa : twa)\<close>.
\<close>

definition normAngle :: "real \<Rightarrow> real" where
  "normAngle t = \<bar>if t > 180 then 360 - t else t\<bar>"

definition calculateBoatSpeed :: "real \<Rightarrow> real \<Rightarrow> real" where
  "calculateBoatSpeed twa_in windSpeed =
     (let angle = normAngle twa_in
      in if angle < 30 then 0
         else
          (let base = baseMaxSpeed windSpeed;
               optTWA = getUpwindTWA windSpeed
           in if angle < optTWA
              then (let rng = optTWA - 30;
                        progress = (angle - 30) / rng
                    in base * sin (progress * pi / 2))
              else
               (let reachSpeed = base * 1.15;
                    downwindSpeed = (if windSpeed > 14 then base * 1.3 else base * 0.95)
                in if angle \<le> 90
                   then (let t = (angle - optTWA) / (90 - optTWA)
                         in base + (reachSpeed - base) * smoothStep t)
                   else (let t = (angle - 90) / 90
                         in reachSpeed + (downwindSpeed - reachSpeed) * smoothStep t))))"

datatype Tack = Port | Stbd

record GroundVector =
  cog :: real
  sog :: real
  heading :: real

text \<open>The ground velocity that \<open>getGroundVector\<close> adds up before it takes direction and length.\<close>

definition groundVel :: "real \<Rightarrow> real \<Rightarrow> real \<Rightarrow> real \<Rightarrow> Tack \<Rightarrow> Point" where
  "groundVel windDir windSpeed currentDir currentSpeed tack =
     (let t = twa (getTackingAngles windDir windSpeed);
          boatSpeed = calculateBoatSpeed t windSpeed;
          hd = (case tack of Port \<Rightarrow> fmod (windDir + t) 360
                           | Stbd \<Rightarrow> fmod (windDir - t + 360) 360);
          hRad = toRadians hd;
          tRad = toRadians currentDir
      in \<lparr> px = boatSpeed * sin hRad + currentSpeed * sin tRad,
           py = boatSpeed * cos hRad + currentSpeed * cos tRad \<rparr>)"

definition getGroundVector :: "real \<Rightarrow> real \<Rightarrow> real \<Rightarrow> real \<Rightarrow> Tack \<Rightarrow> GroundVector" where
  "getGroundVector windDir windSpeed currentDir currentSpeed tack =
     (let t = twa (getTackingAngles windDir windSpeed);
          hd = (case tack of Port \<Rightarrow> fmod (windDir + t) 360
                           | Stbd \<Rightarrow> fmod (windDir - t + 360) 360);
          g = groundVel windDir windSpeed currentDir currentSpeed tack;
          c0 = toDegrees (atan2 (px g) (py g));
          c = (if c0 < 0 then c0 + 360 else c0)
      in \<lparr> cog = c, sog = sqrt ((px g)\<^sup>2 + (py g)\<^sup>2), heading = hd \<rparr>)"

text \<open>
  \<open>getGroundVector\<close> above normalises the course over ground in exact arithmetic.  The same
  statement \<open>if (cog < 0) cog += 360\<close> on doubles: the sum is rounded.
\<close>

definition normalizeCogDouble :: "real \<Rightarrow> real" where
  "normalizeCogDouble c0 = (if c0 < 0 then roundDouble (c0 + 360) else c0)"

section \<open>The course geometry of \<open>calculateLayerData\<close>\<close>

text \<open>
  \<open>CourseConfig\<close> of \<open>types.ts\<close>, and the properties of the map component that the geometry
  reads: the live configuration (its course length fixes the scale) and the size of the
  drawing area.
\<close>

record CourseConfig =
  windDirection :: real
  windSpeed :: real
  currentDirection :: real
  currentSpeed :: real
  courseAxis :: real
  courseLength :: real
  startLineLength :: real
  startLineBias :: real
  markShift :: real
  showLadderRungs :: bool
  showLaylines :: bool
  showWindLine :: bool
  showZones :: bool

definition DEFAULT_CONFIG :: CourseConfig where
  "DEFAULT_CONFIG =
     \<lparr> windDirection = 0, windSpeed = 12, currentDirection = 90, currentSpeed = 0,
       courseAxis = 0, courseLength = 1000, startLineLength = 200, startLineBias = 0,
       markShift = 0, showLadderRungs = True, showLaylines = True, showWindLine = True,
       showZones = False \<rparr>"

record Props =
  config :: CourseConfig
  width :: real
  height :: real

definition scale :: "Props \<Rightarrow> real" where
  "scale props =
     (let margin = 50;
          plotWidth = width props - margin * 2;
          plotHeight = height props - margin * 2;
          maxDimension = courseLength (config props) * 1.4
      in min plotWidth plotHeight / maxDimension)"

definition toScreen :: "Props \<Rightarrow> Point \<Rightarrow> Point" where
  "toScreen props p =
     \<lparr> px = width props / 2 + px p * scale props,
       py = height props * 0.85 - py p * scale props \<rparr>"

subsection \<open>Marks\<close>

definition pinLocWorld :: "CourseConfig \<Rightarrow> Point" where
  "pinLocWorld cfg =
     rotatePoint \<lparr> px = - (startLineLength cfg / 2), py = 0 \<rparr> \<lparr> px = 0, py = 0 \<rparr>
       (startLineBias cfg)"

definition rcLocWorld :: "CourseConfig \<Rightarrow> Point" where
  "rcLocWorld cfg =
     rotatePoint \<lparr> px = startLineLength cfg / 2, py = 0 \<rparr> \<lparr> px = 0, py = 0 \<rparr>
       (startLineBias cfg)"

definition markLocWorld :: "CourseConfig \<Rightarrow> Point" where
  "markLocWorld cfg = \<lparr> px = markShift cfg, py = courseLength cfg \<rparr>"

subsection \<open>Laylines and corners\<close>

definition portData :: "CourseConfig \<Rightarrow> GroundVector" where
  "portData cfg =
     getGroundVector (windDirection cfg) (windSpeed cfg) (currentDirection cfg) (currentSpeed cfg) Port"

definition stbdData :: "CourseConfig \<Rightarrow> GroundVector" where
  "stbdData cfg =
     getGroundVector (windDirection cfg) (windSpeed cfg) (currentDirection cfg) (currentSpeed cfg) Stbd"

definition markPortLaylineAngle :: "CourseConfig \<Rightarrow> real" where
  "markPortLaylineAngle cfg = fmod (cog (portData cfg) + 180) 360"

definition markStbdLaylineAngle :: "CourseConfig \<Rightarrow> real" where
  "markStbdLaylineAngle cfg = fmod (cog (stbdData cfg) + 180) 360"

text \<open>
  The two analytic intersections, before the clamp: the first values of \<open>leftCornerWorld\<close> and
  \<open>rightCornerWorld\<close>.
\<close>

definition leftIntersection :: "CourseConfig \<Rightarrow> Point option" where
  "leftIntersection cfg =
     intersectLines (pinLocWorld cfg) (cog (stbdData cfg)) (markLocWorld cfg) (markPortLaylineAngle cfg)"

definition rightIntersection :: "CourseConfig \<Rightarrow> Point option" where
  "rightIntersection cfg =
     intersectLines (rcLocWorld cfg) (cog (portData cfg)) (markLocWorld cfg) (markStbdLaylineAngle cfg)"

text \<open>
  \<open>getXAtY0\<close> returns a number or one of the two infinities; the comparisons of the caller
  with a finite coordinate are \<open>xgt\<close> (\<open>>\<close>) and \<open>xlt\<close> (\<open><\<close>).
\<close>

datatype xnum = NegInfinity | Finite real | PosInfinity

definition getXAtY0 :: "real \<Rightarrow> real \<Rightarrow> xnum" where
  "getXAtY0 angle startY =
     (let rad = toRadians angle
      in if \<bar>cos rad\<bar> < 0.001 then (if angle > 180 then NegInfinity else PosInfinity)
         else Finite (- startY * tan rad))"

fun xgt :: "xnum \<Rightarrow> real \<Rightarrow> bool" where
  "xgt NegInfinity r = False"
| "xgt (Finite v) r = (v > r)"
| "xgt PosInfinity r = True"

fun xlt :: "xnum \<Rightarrow> real \<Rightarrow> bool" where
  "xlt NegInfinity r = True"
| "xlt (Finite v) r = (v < r)"
| "xlt PosInfinity r = False"

definition portLaylineX :: "CourseConfig \<Rightarrow> xnum" where
  "portLaylineX cfg = getXAtY0 (markPortLaylineAngle cfg) (courseLength cfg)"

definition stbdLaylineX :: "CourseConfig \<Rightarrow> xnum" where
  "stbdLaylineX cfg = getXAtY0 (markStbdLaylineAngle cfg) (courseLength cfg)"

text \<open>
  The specification's wording of the same quantity, for comparison with \<open>getXAtY0\<close>: the
  abscissa at which the line through the mark with the given compass angle meets \<open>y = 0\<close>.
\<close>

definition specXIntercept :: "CourseConfig \<Rightarrow> real \<Rightarrow> real" where
  "specXIntercept cfg angle =
     px (markLocWorld cfg) - py (markLocWorld cfg) * tan (toRadians angle)"

definition leftCornerWorld :: "CourseConfig \<Rightarrow> Point option" where
  "leftCornerWorld cfg =
     (let c1 = (if xgt (portLaylineX cfg) (px (pinLocWorld cfg)) then Some (pinLocWorld cfg)
                else leftIntersection cfg)
      in case c1 of
           None \<Rightarrow> None
         | Some p \<Rightarrow> if py p < 0 then Some (pinLocWorld cfg) else Some p)"

definition rightCornerWorld :: "CourseConfig \<Rightarrow> Point option" where
  "rightCornerWorld cfg =
     (let c1 = (if xlt (stbdLaylineX cfg) (px (rcLocWorld cfg)) then Some (rcLocWorld cfg)
                else rightIntersection cfg)
      in case c1 of
           None \<Rightarrow> None
         | Some p \<Rightarrow> if py p < 0 then Some (rcLocWorld cfg) else Some p)"

text \<open>
  The playing-field polygon pin, left corner, mark, right corner, RC in world coordinates, and
  \<open>polyPath\<close>, its image on the screen; the empty list stands for the empty path string.
\<close>

definition fieldPolygonWorld :: "CourseConfig \<Rightarrow> Point list" where
  "fieldPolygonWorld cfg =
     (case (leftCornerWorld cfg, rightCornerWorld cfg) of
        (Some l, Some r) \<Rightarrow> [pinLocWorld cfg, l, markLocWorld cfg, r, rcLocWorld cfg]
      | _ \<Rightarrow> [])"

definition polyPath :: "Props \<Rightarrow> CourseConfig \<Rightarrow> Point list" where
  "polyPath props cfg = map (toScreen props) (fieldPolygonWorld cfg)"

subsection \<open>Ladder rungs\<close>


text \<open>
  \<open>Math.ceil((cfg.courseLength * 1.1) / step)\<close> with the product and the quotient rounded as
  the doubles round them: a product just above a multiple of 100 raises the ceiling by one.
\<close>

definition numRungs :: "CourseConfig \<Rightarrow> int" where
  "numRungs cfg = \<lceil>roundDouble (roundDouble (courseLength cfg * double_1_1) / 100)\<rceil>"







subsection \<open>Zones\<close>

record Zones =
  green :: "Point list"
  redLeft :: "Point list"
  redRight :: "Point list"
  blueBottom :: "Point list"
  blueTop :: "Point list"

text \<open>The compass angle in \<open>[0, 360)\<close> of the vector from the mark to a corner.\<close>

definition angleFromMark :: "CourseConfig \<Rightarrow> Point \<Rightarrow> real" where
  "angleFromMark cfg c =
     (let dxc = px c - px (markLocWorld cfg);
          dyc = py c - py (markLocWorld cfg);
          a = toDegrees (atan2 dxc dyc)
      in if a < 0 then a + 360 else a)"

definition bisect :: "real \<Rightarrow> real \<Rightarrow> real" where
  "bisect a1 a2 =
     (let r1 = toRadians a1;
          r2 = toRadians a2;
          xs = sin r1 + sin r2;
          ys = cos r1 + cos r2;
          b = toDegrees (atan2 xs ys)
      in if b < 0 then b + 360 else b)"

definition getXOnPoly :: "CourseConfig \<Rightarrow> bool \<Rightarrow> real \<Rightarrow> real" where
  "getXOnPoly cfg isLeft targetY =
     (let corner = (if isLeft then leftCornerWorld cfg else rightCornerWorld cfg);
          start = (if isLeft then pinLocWorld cfg else rcLocWorld cfg);
          mark = markLocWorld cfg
      in case corner of
           None \<Rightarrow> 0
         | Some c \<Rightarrow>
             if targetY > py c
             then (let fraction = (targetY - py c) / (py mark - py c)
                   in px c + (px mark - px c) * fraction)
             else (let fraction = (targetY - py start) / (py c - py start)
                   in px start + (px c - px start) * fraction))"

definition getXOnLine :: "CourseConfig \<Rightarrow> real \<Rightarrow> real \<Rightarrow> real" where
  "getXOnLine cfg angle targetY =
     (let rad = toRadians angle;
          tn = tan rad;
          dy = targetY - py (markLocWorld cfg)
      in px (markLocWorld cfg) + dy * tn)"

text \<open>
  The clamped warning-line abscissas at one level \<open>yv\<close>: the left and the right one, merged to
  their middle when they cross.
\<close>

definition warnXs :: "CourseConfig \<Rightarrow> real \<Rightarrow> real \<Rightarrow> real \<Rightarrow> real \<times> real" where
  "warnXs cfg angleWarnL angleWarnR yv =
     (let xl = max (getXOnLine cfg angleWarnL yv) (getXOnPoly cfg True yv);
          xr = min (getXOnLine cfg angleWarnR yv) (getXOnPoly cfg False yv)
      in if xl > xr then ((xl + xr) / 2, (xl + xr) / 2) else (xl, xr))"

definition zonesWorld :: "CourseConfig \<Rightarrow> Zones option" where
  "zonesWorld cfg =
     (case (leftCornerWorld cfg, rightCornerWorld cfg) of
        (Some lc, Some rc) \<Rightarrow>
          if showZones cfg then
            (let yBot = courseLength cfg * 0.15;
                 yTop = courseLength cfg * 0.85;
                 angleWind = fmod (windDirection cfg + 180) 360;
                 angleL = angleFromMark cfg lc;
                 angleR = angleFromMark cfg rc;
                 angleWarnL = bisect angleWind angleL;
                 angleWarnR = bisect angleWind angleR;
                 pL_Top = \<lparr> px = getXOnPoly cfg True yTop, py = yTop \<rparr>;
                 pR_Top = \<lparr> px = getXOnPoly cfg False yTop, py = yTop \<rparr>;
                 pL_Bot = \<lparr> px = getXOnPoly cfg True yBot, py = yBot \<rparr>;
                 pR_Bot = \<lparr> px = getXOnPoly cfg False yBot, py = yBot \<rparr>;
                 wTop = warnXs cfg angleWarnL angleWarnR yTop;
                 wBot = warnXs cfg angleWarnL angleWarnR yBot;
                 pWL_Top = \<lparr> px = fst wTop, py = yTop \<rparr>;
                 pWR_Top = \<lparr> px = snd wTop, py = yTop \<rparr>;
                 pWL_Bot = \<lparr> px = fst wBot, py = yBot \<rparr>;
                 pWR_Bot = \<lparr> px = snd wBot, py = yBot \<rparr>
             in Some
                 \<lparr> green = [pWL_Top, pWR_Top, pWR_Bot, pWL_Bot],
                   redLeft = [pL_Top, pWL_Top, pWL_Bot, pL_Bot]
                             @ (if py lc > yBot \<and> py lc < yTop then [lc] else []),
                   redRight = [pWR_Top, pR_Top]
                              @ (if py rc > yBot \<and> py rc < yTop then [rc] else [])
                              @ [pR_Bot, pWR_Bot],
                   blueBottom = [pL_Bot] @ (if py lc < yBot then [lc] else [])
                                @ [pinLocWorld cfg, rcLocWorld cfg]
                                @ (if py rc < yBot then [rc] else []) @ [pR_Bot],
                   blueTop = [markLocWorld cfg, pR_Top, pL_Top] \<rparr>)
          else None
      | _ \<Rightarrow> None)"

text \<open>The zone paths as drawn: every vertex goes through \<open>toScreen\<close>.\<close>

definition zones :: "Props \<Rightarrow> CourseConfig \<Rightarrow> Zones option" where
  "zones props cfg =
     map_option
       (\<lambda>z. \<lparr> green = map (toScreen props) (green z),
               redLeft = map (toScreen props) (redLeft z),
               redRight = map (toScreen props) (redRight z),
               blueBottom = map (toScreen props) (blueBottom z),
               blueTop = map (toScreen props) (blueTop z) \<rparr>)
       (zonesWorld cfg)"

text \<open>
  Two configurations the controls can produce: the default course with the wind from 270
  degrees and the zones switched on, and a light wind of 4 knots from 319 degrees with the mark
  shifted 300 metres to the right.
\<close>

definition cfg319 :: CourseConfig where
  "cfg319 = DEFAULT_CONFIG\<lparr> windDirection := 319, windSpeed := 4, markShift := 300 \<rparr>"


definition cfg270 :: CourseConfig where
  "cfg270 = DEFAULT_CONFIG\<lparr> windDirection := 270, showZones := True \<rparr>"

section \<open>Rounding to doubles\<close>

text \<open>Within one binade the rounding is a rounding to a multiple of the unit in the last place.\<close>

lemma roundDouble_binade:
  fixes v :: real and n :: nat
  assumes "2 ^ n \<le> v" "v < 2 ^ (n + 1)" "n \<le> 52"
  shows "roundDouble v = of_int (rne (v * 2 ^ (52 - n))) / 2 ^ (52 - n)"
proof -
  have pos: "0 < v" using assms(1) by (smt (verit) zero_less_power)
  have p1: "2 powr real_of_int (int n) = (2::real) ^ n"
    using powr_realpow[of "2::real" n] by simp
  have p2: "2 powr real_of_int (int n + 1) = (2::real) ^ (n + 1)"
    using powr_realpow[of "2::real" "n + 1"] by (simp add: add.commute)
  have "2 powr real_of_int (int n) \<le> v \<and> v < 2 powr real_of_int (int n + 1)"
    unfolding p1 p2 using assms(1,2) by simp
  then have "\<lfloor>log 2 v\<rfloor> = int n"
    using pos by (subst floor_log_eq_powr_iff) simp_all
  then have e: "\<lfloor>log 2 \<bar>v\<bar>\<rfloor> = int n" using pos by simp
  have "2 powr (of_int (int n) - 52) = 2 powr (- real (52 - n))"
    using assms(3) by (simp add: of_nat_diff)
  also have "\<dots> = inverse (2 ^ (52 - n))"
    by (simp add: powr_minus powr_realpow)
  finally have u: "2 powr (of_int (int n) - 52) = inverse ((2::real) ^ (52 - n))" .
  have nz: "v \<noteq> 0" using pos by simp
  have "roundDouble v
          = of_int (rne (v / inverse ((2::real) ^ (52 - n)))) * inverse ((2::real) ^ (52 - n))"
    unfolding roundDouble_def Let_def e u using nz by simp
  then show ?thesis by (simp add: divide_inverse)
qed


lemma rne_above_half: "of_int k + 1 / 2 < r \<Longrightarrow> r < of_int k + 1 \<Longrightarrow> rne r = k + 1"
proof -
  assume a: "of_int k + 1 / 2 < r" "r < of_int k + 1"
  then have "\<lfloor>r\<rfloor> = k" by (intro floor_unique) auto
  then show ?thesis using a by (simp add: rne_def Let_def)
qed



lemma prod3000: "roundDouble (3000 * double_1_1) = 7256776743321601 / 2 ^ 41"
proof -
  have "roundDouble (3000 * double_1_1) = of_int (rne (3000 * double_1_1 * 2 ^ (52 - 11))) / 2 ^ (52 - 11)"
    by (rule roundDouble_binade) (simp_all add: double_1_1_def)
  moreover have "rne (3000 * double_1_1 * 2 ^ (52 - 11)) = 7256776743321600 + 1"
    by (rule rne_above_half) (simp_all add: double_1_1_def)
  ultimately show ?thesis by simp
qed

lemma quot3300: "roundDouble (7256776743321601 / 2 ^ 41 / 100) = 4644337115725825 / 2 ^ 47"
proof -
  have "roundDouble (7256776743321601 / 2 ^ 41 / 100)
          = of_int (rne (7256776743321601 / 2 ^ 41 / 100 * 2 ^ (52 - 5))) / 2 ^ (52 - 5)"
    by (rule roundDouble_binade) simp_all
  moreover have "rne (7256776743321601 / 2 ^ 41 / 100 * 2 ^ (52 - 5)) = 4644337115725824 + 1"
    by (rule rne_above_half) simp_all
  ultimately show ?thesis by simp
qed

lemma ceil3000: "\<lceil>(4644337115725825 / 2 ^ 47 :: real)\<rceil> = 34"
  by (simp add: ceiling_eq_iff)

text \<open>An angle between \<open>-2^-45\<close> and 0 added to 360 rounds to 360.\<close>

lemma add360:
  assumes "- (1 / 2 ^ 45) < c" "c < 0"
  shows "roundDouble (c + 360) = 360"
proof -
  have "(0::real) < 1 / 2 ^ 45" by simp
  moreover have "(1::real) / 2 ^ 45 < 1" by (simp add: field_simps)
  ultimately have r: "256 \<le> c + 360" "c + 360 < 512" using assms by linarith+
  have "roundDouble (c + 360) = of_int (rne ((c + 360) * 2 ^ (52 - 8))) / 2 ^ (52 - 8)"
    by (rule roundDouble_binade) (use r in simp_all)
  moreover have "rne ((c + 360) * 2 ^ (52 - 8)) = (6333186975989760 - 1) + 1"
  proof (rule rne_above_half)
    have "- (1 / 2) < c * 2 ^ 44" using assms(1) by (simp add: field_simps)
    then show "of_int (6333186975989760 - 1) + 1 / 2 < (c + 360) * 2 ^ (52 - 8)"
      by (simp add: algebra_simps)
    have "c * 2 ^ 44 < 0" using assms(2) by (simp add: mult_less_0_iff)
    then show "(c + 360) * 2 ^ (52 - 8) < of_int (6333186975989760 - 1) + 1"
      by (simp add: algebra_simps)
  qed
  ultimately show ?thesis by simp
qed


section \<open>The upwind pointing angle\<close>

lemma getUpwindTWA_range: "38 \<le> getUpwindTWA w \<and> getUpwindTWA w \<le> 50"
  by (simp add: getUpwindTWA_def Let_def field_simps)

text \<open>
  Claim C9.  The upwind angle never grows with the wind speed: for \<open>w1 \<le> w2\<close> the angle at
  \<open>w2\<close> is at most the angle at \<open>w1\<close>; it is 50 degrees up to 4 knots and 38 degrees from
  20 knots on.
\<close>

theorem getUpwindTWA_nonincreasing:
  "(w1 \<le> w2 \<longrightarrow> getUpwindTWA w2 \<le> getUpwindTWA w1)
   \<and> (w \<le> 4 \<longrightarrow> getUpwindTWA w = 50)
   \<and> (20 \<le> v \<longrightarrow> getUpwindTWA v = 38)"
  by (simp add: getUpwindTWA_def Let_def field_simps)

theorem getUpwindTWA_nonincreasing_witness:
  "(6::real) \<le> 12 \<and> getUpwindTWA 12 \<le> getUpwindTWA 6
   \<and> (3::real) \<le> 4 \<and> getUpwindTWA 3 = 50
   \<and> (20::real) \<le> 25 \<and> getUpwindTWA 25 = 38"
  using getUpwindTWA_nonincreasing [where ?w1.0 = 6 and ?w2.0 = 12 and w = 3 and v = 25]
  by simp

section \<open>The boat-speed polar\<close>

lemma baseMaxSpeed_le: "baseMaxSpeed w \<le> 8.5"
  by (simp add: baseMaxSpeed_def Let_def)

lemma smoothStep_nonneg: "0 \<le> t \<Longrightarrow> t \<le> 1 \<Longrightarrow> 0 \<le> smoothStep t"
  by (simp add: smoothStep_def)

lemma smoothStep_le_one:
  assumes "0 \<le> t" "t \<le> 1" shows "smoothStep t \<le> 1"
proof -
  have "1 - smoothStep t = (1 - t) * (1 - t) * (1 + 2 * t)"
    by (simp add: smoothStep_def algebra_simps)
  moreover have "0 \<le> (1 - t) * (1 - t) * (1 + 2 * t)"
    using assms by simp
  ultimately show ?thesis by linarith
qed

text \<open>A capped base speed times a factor between 0 and \<open>k\<close> stays below \<open>8.5 * k\<close>.\<close>

lemma capped_product:
  fixes b f :: real
  assumes "b \<le> 8.5" "0 \<le> f" "f \<le> k" "0 \<le> k"
  shows "b * f \<le> 8.5 * k"
proof (cases "0 \<le> b")
  case True
  then show ?thesis using assms by (intro mult_mono) auto
next
  case False
  then have "b * f \<le> 0" using assms by (simp add: mult_le_0_iff)
  moreover have "0 \<le> 8.5 * k" using assms by simp
  ultimately show ?thesis by linarith
qed

text \<open>The four branches of \<open>calculateBoatSpeed\<close>, each as a multiple of the base speed.\<close>

lemma speed_cases:
  "calculateBoatSpeed t w =
     (if normAngle t < 30 then 0
      else if normAngle t < getUpwindTWA w
        then baseMaxSpeed w * sin ((normAngle t - 30) / (getUpwindTWA w - 30) * pi / 2)
      else if normAngle t \<le> 90
        then baseMaxSpeed w
               * (1 + 0.15 * smoothStep ((normAngle t - getUpwindTWA w) / (90 - getUpwindTWA w)))
      else baseMaxSpeed w
             * (1.15 + ((if w > 14 then 1.3 else 0.95) - 1.15) * smoothStep ((normAngle t - 90) / 90)))"
  by (simp add: calculateBoatSpeed_def Let_def algebra_simps)

lemma upwind_le:
  assumes "normAngle t \<le> getUpwindTWA w"
  shows "calculateBoatSpeed t w \<le> 8.5"
proof -
  let ?a = "normAngle t" and ?o = "getUpwindTWA w"
  have o: "38 \<le> ?o" "?o \<le> 50" using getUpwindTWA_range by auto
  consider "?a < 30" | "30 \<le> ?a" "?a < ?o" | "?a = ?o" using assms by linarith
  then show ?thesis
  proof cases
    case 1 then show ?thesis by (simp add: speed_cases)
  next
    case 2
    let ?p = "(?a - 30) / (?o - 30)"
    have p: "0 \<le> ?p" "?p \<le> 1" using 2 o by (auto simp: field_simps)
    define q where "q = ?p * pi"
    have "0 \<le> q" unfolding q_def by (rule mult_nonneg_nonneg[OF p(1) pi_ge_zero])
    moreover have "q \<le> 1 * pi" unfolding q_def by (rule mult_right_mono[OF p(2) pi_ge_zero])
    ultimately have "0 \<le> q / 2" "q / 2 \<le> pi" using pi_ge_zero by auto
    then have "0 \<le> ?p * pi / 2" "?p * pi / 2 \<le> pi" unfolding q_def by blast+
    then have "0 \<le> sin (?p * pi / 2)" by (intro sin_ge_zero) auto
    moreover have "sin (?p * pi / 2) \<le> 1" by simp
    ultimately have "baseMaxSpeed w * sin (?p * pi / 2) \<le> 8.5 * 1"
      by (intro capped_product baseMaxSpeed_le) auto
    then show ?thesis using 2 by (simp add: speed_cases)
  next
    case 3
    then show ?thesis using o baseMaxSpeed_le[of w] by (simp add: speed_cases smoothStep_def)
  qed
qed

lemma speed_le_general:
  assumes "0 \<le> t" "t \<le> 360"
  shows "calculateBoatSpeed t w \<le> 11.05"
proof -
  let ?a = "normAngle t" and ?o = "getUpwindTWA w"
  have o: "38 \<le> ?o" "?o \<le> 50" using getUpwindTWA_range by auto
  have a: "0 \<le> ?a" "?a \<le> 180" using assms by (auto simp: normAngle_def)
  consider "?a \<le> ?o" | "?o < ?a" "?a \<le> 90" | "90 < ?a" by linarith
  then show ?thesis
  proof cases
    case 1 then show ?thesis using upwind_le[of t w] by simp
  next
    case 2
    let ?s = "smoothStep ((?a - ?o) / (90 - ?o))"
    have "0 \<le> (?a - ?o) / (90 - ?o)" "(?a - ?o) / (90 - ?o) \<le> 1"
      using 2 o by (auto simp: field_simps)
    then have s: "0 \<le> ?s" "?s \<le> 1" using smoothStep_nonneg smoothStep_le_one by auto
    have "baseMaxSpeed w * (1 + 0.15 * ?s) \<le> 8.5 * 1.3"
      using s by (intro capped_product baseMaxSpeed_le) auto
    then show ?thesis using 2 o by (simp add: speed_cases)
  next
    case 3
    let ?s = "smoothStep ((?a - 90) / 90)"
    let ?k = "if w > 14 then 1.3 else (0.95::real)"
    have "0 \<le> (?a - 90) / 90" "(?a - 90) / 90 \<le> 1" using 3 a by auto
    then have s: "0 \<le> ?s" "?s \<le> 1" using smoothStep_nonneg smoothStep_le_one by auto
    have "baseMaxSpeed w * (1.15 + (?k - 1.15) * ?s) \<le> 8.5 * 1.3"
      using s by (intro capped_product baseMaxSpeed_le) (auto simp: algebra_simps)
    then show ?thesis using 3 o by (simp add: speed_cases)
  qed
qed

text \<open>
  Claim C1, as stated, fails: the cap of 8.5 knots is put on the base (upwind) speed only, and the
  reaching speed is 1.15 times the base.  Beam reach in 30 knots of wind gives 9.43 knots.
\<close>

theorem hull_ceiling_counterexample: "\<not> calculateBoatSpeed 90 30 \<le> 8.5"
  by (simp add: calculateBoatSpeed_def normAngle_def baseMaxSpeed_def getUpwindTWA_def
      smoothStep_def Let_def)

text \<open>
  Claim C1, amended.  The base speed is at most 8.5 knots for every wind speed; the boat speed is
  at most 8.5 knots at every angle up to the upwind angle of that wind speed; and for every angle
  in \<open>[0, 360]\<close>, reaching and downwind included, it is at most \<open>1.3 * 8.5 = 11.05\<close> knots.
\<close>

theorem boat_speed_ceiling:
  "baseMaxSpeed w \<le> 8.5
   \<and> (normAngle t \<le> getUpwindTWA w \<longrightarrow> calculateBoatSpeed t w \<le> 8.5)
   \<and> (0 \<le> t \<and> t \<le> 360 \<longrightarrow> calculateBoatSpeed t w \<le> 11.05)"
  using baseMaxSpeed_le upwind_le speed_le_general by blast

theorem boat_speed_ceiling_witness:
  "normAngle 40 \<le> getUpwindTWA 12 \<and> (0::real) \<le> 40 \<and> (40::real) \<le> 360
   \<and> baseMaxSpeed 12 \<le> 8.5 \<and> calculateBoatSpeed 40 12 \<le> 8.5 \<and> calculateBoatSpeed 40 12 \<le> 11.05"
proof -
  have h: "normAngle 40 \<le> getUpwindTWA 12"
    by (simp add: normAngle_def getUpwindTWA_def)
  show ?thesis using h boat_speed_ceiling [where w = 12 and t = 40] by simp
qed

lemma speed_at_optTWA: "calculateBoatSpeed (getUpwindTWA w) w = baseMaxSpeed w"
proof -
  have "38 \<le> getUpwindTWA w" "getUpwindTWA w \<le> 50" using getUpwindTWA_range by auto
  then show ?thesis
    by (simp add: calculateBoatSpeed_def normAngle_def smoothStep_def Let_def)
qed

text \<open>
  Claim C2, as stated, fails between \<open>30/7\<close> and 5 knots: the floor \<open>3 + windSpeed/10\<close> is taken
  only when \<open>0.7 * windSpeed < 3\<close>, so at 4.5 knots the base speed is 3.15, below the maximum 3.45.
\<close>

theorem base_speed_max_counterexample:
  "baseMaxSpeed 4.5 \<noteq> max (0.7 * 4.5) (3 + 4.5 / 10)
   \<and> calculateBoatSpeed (getUpwindTWA 4.5) 4.5 \<noteq> max (0.7 * 4.5) (3 + 4.5 / 10)"
  by (simp add: calculateBoatSpeed_def normAngle_def baseMaxSpeed_def getUpwindTWA_def
      smoothStep_def Let_def)

text \<open>
  Claim C2, amended.  Below 10 knots the base speed is \<open>3 + w/10\<close> when \<open>0.7 * w < 3\<close> and
  \<open>0.7 * w\<close> otherwise, which for \<open>w \<ge> 0\<close> is \<open>max (0.7 * w) (3 + w/10)\<close> except on
  \<open>30/7 \<le> w < 5\<close>; from 10 knots on it is \<open>6.2 + 0.1 * (w - 10)\<close> capped at 8.5; and
  \<open>calculateBoatSpeed\<close> at the upwind angle returns exactly this base speed.
\<close>

theorem base_speed_formula:
  "(w < 10 \<longrightarrow> baseMaxSpeed w = (if 0.7 * w < 3 then 3 + w / 10 else 0.7 * w))
   \<and> (0 \<le> w \<and> w < 10 \<and> (w < 30 / 7 \<or> 5 \<le> w) \<longrightarrow> baseMaxSpeed w = max (0.7 * w) (3 + w / 10))
   \<and> (10 \<le> w \<longrightarrow> baseMaxSpeed w = min (6.2 + 0.1 * (w - 10)) 8.5)
   \<and> calculateBoatSpeed (getUpwindTWA w) w = baseMaxSpeed w"
  by (simp add: speed_at_optTWA) (auto simp add: baseMaxSpeed_def Let_def min_def max_def)

theorem base_speed_formula_witness:
  "(6::real) < 10 \<and> (0::real) \<le> 6 \<and> (5::real) \<le> 6
   \<and> baseMaxSpeed 6 = max (0.7 * 6) (3 + 6 / 10)
   \<and> calculateBoatSpeed (getUpwindTWA 6) 6 = 4.2
   \<and> (10::real) \<le> 12 \<and> baseMaxSpeed 12 = min (6.2 + 0.1 * (12 - 10)) 8.5
   \<and> calculateBoatSpeed (getUpwindTWA 12) 12 = 6.4"
  using base_speed_formula [where w = 6] base_speed_formula [where w = 12]
  by simp

section \<open>Line intersection\<close>

lemma lineDet_same: "lineDet a a = 0"
  by (simp add: lineDet_def)

lemma intersect_parallel: "\<bar>lineDet a1 a2\<bar> < 0.0001 \<Longrightarrow> intersectLines p1 a1 p2 a2 = None"
  by (simp add: intersectLines_def Let_def)

lemma lineDet_sin: "lineDet a1 a2 = sin (toRadians a2 - toRadians a1)"
  by (simp add: lineDet_def sin_diff)

lemma lineDet_perp: "lineDet a (a + 90) = 1" "lineDet a (a - 90) = -1"
  by (simp_all add: lineDet_sin toRadians_def algebra_simps diff_divide_distrib add_divide_distrib)

text \<open>
  Two lines that both pass through the origin: each base point is a multiple of the direction of
  its line.  When the lines are not parallel within the tolerance, the result is the origin.
\<close>

lemma intersect_through_origin:
  assumes p1: "p1 = \<lparr> px = s1 * sin (toRadians a1), py = s1 * cos (toRadians a1) \<rparr>"
      and p2: "p2 = \<lparr> px = s2 * sin (toRadians a2), py = s2 * cos (toRadians a2) \<rparr>"
      and d: "\<not> \<bar>lineDet a1 a2\<bar> < 0.0001"
  shows "intersectLines p1 a1 p2 a2 = Some \<lparr> px = 0, py = 0 \<rparr>"
proof -
  let ?d = "lineDet a1 a2"
  have nz: "?d \<noteq> 0" using d by auto
  let ?t = "((px p2 - px p1) * (- cos (toRadians a2)) - (py p2 - py p1) * (- sin (toRadians a2))) / ?d"
  have "(px p2 - px p1) * (- cos (toRadians a2)) - (py p2 - py p1) * (- sin (toRadians a2)) = - s1 * ?d"
    by (simp add: p1 p2 lineDet_def algebra_simps)
  then have t: "?t = - s1" using nz by (simp add: field_simps)
  have "intersectLines p1 a1 p2 a2
          = Some \<lparr> px = px p1 + ?t * sin (toRadians a1), py = py p1 + ?t * cos (toRadians a1) \<rparr>"
    using d by (simp add: intersectLines_def Let_def)
  also have "\<dots> = Some \<lparr> px = 0, py = 0 \<rparr>"
    unfolding t by (simp add: p1)
  finally show ?thesis .
qed

text \<open>
  Claim C8.  Lines whose determinant is below \<open>1e-4\<close> in absolute value give no point, in
  particular two lines with the same compass angle; two perpendicular lines through the origin
  (base points anywhere on them, the second angle 90 degrees off the first) give the origin.
\<close>

theorem intersectLines_parallel_and_origin:
  "(\<bar>lineDet a1 a2\<bar> < 0.0001 \<longrightarrow> intersectLines p1 a1 p2 a2 = None)
   \<and> intersectLines p1 a p2 a = None
   \<and> (b = a + 90 \<or> b = a - 90 \<longrightarrow>
        intersectLines \<lparr> px = s1 * sin (toRadians a), py = s1 * cos (toRadians a) \<rparr> a
                       \<lparr> px = s2 * sin (toRadians b), py = s2 * cos (toRadians b) \<rparr> b
          = Some \<lparr> px = 0, py = 0 \<rparr>)"
proof (intro conjI impI)
  assume "\<bar>lineDet a1 a2\<bar> < 0.0001"
  then show "intersectLines p1 a1 p2 a2 = None" by (rule intersect_parallel)
next
  show "intersectLines p1 a p2 a = None"
    by (rule intersect_parallel) (simp add: lineDet_same)
next
  assume "b = a + 90 \<or> b = a - 90"
  then have "\<not> \<bar>lineDet a b\<bar> < 0.0001" using lineDet_perp[of a] by auto
  then show "intersectLines \<lparr> px = s1 * sin (toRadians a), py = s1 * cos (toRadians a) \<rparr> a
                       \<lparr> px = s2 * sin (toRadians b), py = s2 * cos (toRadians b) \<rparr> b
          = Some \<lparr> px = 0, py = 0 \<rparr>"
    by (intro intersect_through_origin) auto
qed

theorem intersectLines_parallel_and_origin_witness:
  "\<bar>lineDet 30 30\<bar> < 0.0001
   \<and> intersectLines \<lparr> px = 1, py = 2 \<rparr> 30 \<lparr> px = 5, py = 7 \<rparr> 30 = None
   \<and> (90::real) = 0 + 90
   \<and> intersectLines \<lparr> px = 0, py = 5 \<rparr> 0 \<lparr> px = 3, py = 0 \<rparr> 90 = Some \<lparr> px = 0, py = 0 \<rparr>
   \<and> intersectLines \<lparr> px = 0, py = 0 \<rparr> 0 \<lparr> px = 0, py = 0 \<rparr> 90 = Some \<lparr> px = 0, py = 0 \<rparr>"
  using intersectLines_parallel_and_origin
          [where ?a1.0 = 30 and ?a2.0 = 30 and ?p1.0 = "\<lparr> px = 1, py = 2 \<rparr>"
             and ?p2.0 = "\<lparr> px = 5, py = 7 \<rparr>" and a = 0 and b = 90 and ?s1.0 = 5 and ?s2.0 = 3]
        intersectLines_parallel_and_origin
          [where ?a1.0 = 30 and ?a2.0 = 30 and ?p1.0 = "\<lparr> px = 1, py = 2 \<rparr>"
             and ?p2.0 = "\<lparr> px = 5, py = 7 \<rparr>" and a = 0 and b = 90 and ?s1.0 = 0 and ?s2.0 = 0]
  by (simp add: lineDet_same toRadians_def)

section \<open>Continuity of the polar at its breakpoints\<close>

text \<open>Two functions continuous at \<open>c\<close> that agree there glue to a function continuous at \<open>c\<close>.\<close>

lemma isCont_glue:
  fixes c :: real and L R :: "real \<Rightarrow> real"
  assumes L: "isCont L c" and R: "isCont R c" and eq: "L c = R c"
  shows "isCont (\<lambda>x. if x \<le> c then L x else R x) c"
proof (rule isCont_If_ge)
  show "continuous (at_left c) L"
    using L by (rule continuous_at_imp_continuous_at_within)
  have "(R \<longlongrightarrow> R c) (at c)" using R by (simp add: isCont_def)
  then have "(R \<longlongrightarrow> R c) (at_right c)" by (simp add: filterlim_at_split)
  then show "(R \<longlongrightarrow> L c) (at_right c)" by (simp add: eq)
qed

lemma isCont_local:
  fixes c lo hi :: real and f g :: "real \<Rightarrow> real"
  assumes "lo < c" "c < hi" and "\<And>x. lo < x \<Longrightarrow> x < hi \<Longrightarrow> f x = g x" and "isCont g c"
  shows "isCont f c"
proof -
  have "eventually (\<lambda>x. x \<in> {lo<..<hi}) (nhds c)"
    using assms(1,2) by (intro eventually_nhds_in_open) auto
  then have "eventually (\<lambda>x. f x = g x) (nhds c)"
    by (rule eventually_mono) (use assms(3) in auto)
  then show ?thesis using assms(4) by (simp add: isCont_cong)
qed

lemma cont_at_30: "isCont (\<lambda>a. calculateBoatSpeed a w) 30"
proof -
  let ?o = "getUpwindTWA w" and ?b = "baseMaxSpeed w"
  have o: "38 \<le> ?o" "?o \<le> 50" using getUpwindTWA_range by auto
  let ?L = "\<lambda>a::real. 0::real"
  let ?R = "\<lambda>a. ?b * sin ((a - 30) / (?o - 30) * pi / 2)"
  have g: "isCont (\<lambda>a. if a \<le> 30 then ?L a else ?R a) 30"
  proof (rule isCont_glue[where L = ?L and R = ?R])
    show "isCont ?R 30" using o by (auto intro!: continuous_intros)
  qed simp_all
  show ?thesis
  proof (rule isCont_local[where lo = 0 and hi = 38, OF _ _ _ g])
    fix a :: real assume "0 < a" "a < 38"
    then show "calculateBoatSpeed a w = (if a \<le> 30 then ?L a else ?R a)"
      using o by (auto simp: speed_cases normAngle_def)
  qed simp_all
qed

lemma cont_at_opt: "isCont (\<lambda>a. calculateBoatSpeed a w) (getUpwindTWA w)"
proof -
  let ?o = "getUpwindTWA w" and ?b = "baseMaxSpeed w"
  have o: "38 \<le> ?o" "?o \<le> 50" using getUpwindTWA_range by auto
  let ?L = "\<lambda>a. ?b * sin ((a - 30) / (?o - 30) * pi / 2)"
  let ?R = "\<lambda>a. ?b * (1 + 0.15 * smoothStep ((a - ?o) / (90 - ?o)))"
  have e: "?L ?o = ?R ?o" using o by (simp add: smoothStep_def)
  have g: "isCont (\<lambda>a. if a \<le> ?o then ?L a else ?R a) ?o"
  proof (rule isCont_glue[where L = ?L and R = ?R])
    show "isCont ?L ?o" using o by (auto intro!: continuous_intros)
    show "isCont ?R ?o" using o by (auto intro!: continuous_intros simp: smoothStep_def)
  qed (rule e)
  show ?thesis
  proof (rule isCont_local[where lo = 30 and hi = 90, OF _ _ _ g])
    fix a :: real assume "30 < a" "a < 90"
    then have a: "30 < a" "a < 90" by auto
    show "calculateBoatSpeed a w = (if a \<le> ?o then ?L a else ?R a)"
    proof (cases "a = ?o")
      case True
      have "calculateBoatSpeed ?o w = ?R ?o" using o by (simp add: speed_cases normAngle_def)
      also have "\<dots> = ?L ?o" by (rule e[symmetric])
      finally show ?thesis by (simp only: True order_refl if_True)
    next
      case False
      then show ?thesis using o a by (auto simp: speed_cases normAngle_def)
    qed
  qed (use o in simp_all)
qed

lemma cont_at_90: "isCont (\<lambda>a. calculateBoatSpeed a w) 90"
proof -
  let ?o = "getUpwindTWA w" and ?b = "baseMaxSpeed w"
  have o: "38 \<le> ?o" "?o \<le> 50" using getUpwindTWA_range by auto
  let ?L = "\<lambda>a. ?b * (1 + 0.15 * smoothStep ((a - ?o) / (90 - ?o)))"
  let ?R = "\<lambda>a. ?b * (1.15 + ((if w > 14 then 1.3 else 0.95) - 1.15) * smoothStep ((a - 90) / 90))"
  have e: "?L 90 = ?R 90" using o by (simp add: smoothStep_def)
  have g: "isCont (\<lambda>a. if a \<le> 90 then ?L a else ?R a) 90"
  proof (rule isCont_glue[where L = ?L and R = ?R])
    show "isCont ?L 90" using o by (auto intro!: continuous_intros simp: smoothStep_def)
    show "isCont ?R 90" by (auto intro!: continuous_intros simp: smoothStep_def)
  qed (rule e)
  show ?thesis
  proof (rule isCont_local[where lo = 50 and hi = 180, OF _ _ _ g])
    fix a :: real assume "50 < a" "a < 180"
    then show "calculateBoatSpeed a w = (if a \<le> 90 then ?L a else ?R a)"
      using o by (auto simp: speed_cases normAngle_def)
  qed simp_all
qed

lemma no_go_zone: "- 30 < a \<Longrightarrow> a < 30 \<Longrightarrow> calculateBoatSpeed a w = 0"
proof -
  assume "- 30 < a" "a < 30"
  then have "normAngle a < 30" by (simp add: normAngle_def abs_less_iff)
  then show ?thesis by (simp add: speed_cases)
qed


text \<open>
  Claim C3.  For every wind speed \<open>w > 0\<close> the boat speed is 0 at every angle \<open>a < 30\<close> of the
  angle range \<open>[0, 180]\<close> (and at every angle above \<open>-30\<close>, which \<open>Math.abs\<close> reflects into that
  range), and as a function of the angle it is continuous at 30 degrees, at the upwind angle of
  \<open>w\<close> and at 90 degrees: the limit there is the value, so there is no jump at all, in
  particular none above 0.01 knots.
\<close>

theorem no_go_zone_and_continuity:
  "0 < w \<Longrightarrow>
     (- 30 < a \<and> a < 30 \<longrightarrow> calculateBoatSpeed a w = 0)
     \<and> isCont (\<lambda>a. calculateBoatSpeed a w) 30
     \<and> isCont (\<lambda>a. calculateBoatSpeed a w) (getUpwindTWA w)
     \<and> isCont (\<lambda>a. calculateBoatSpeed a w) 90"
  using no_go_zone cont_at_30 cont_at_opt cont_at_90 by blast

theorem no_go_zone_and_continuity_witness:
  "(0::real) < 12 \<and> (- 30::real) < 10 \<and> (10::real) < 30
   \<and> calculateBoatSpeed 10 12 = 0
   \<and> isCont (\<lambda>a. calculateBoatSpeed a 12) 30
   \<and> isCont (\<lambda>a. calculateBoatSpeed a 12) (getUpwindTWA 12)
   \<and> isCont (\<lambda>a. calculateBoatSpeed a 12) 90"
  using no_go_zone_and_continuity [where w = 12 and a = 10] by simp

section \<open>The ground vector\<close>

lemma arctan_b: "- (pi / 2) < arctan v" "arctan v < pi / 2"
  by (rule arctan_lbound, rule arctan_ubound)

lemma atan2_range: "- pi < atan2 b a \<and> atan2 b a \<le> pi"
proof -
  have pp: "0 < pi" by simp
  note ab = arctan_b[of "b / a"]
  consider "0 < a" | "a < 0" "0 \<le> b" | "a < 0" "b < 0" | "a = 0" by linarith
  then show ?thesis
  proof cases
    case 1 then show ?thesis using ab pp by (simp add: atan2_def)
  next
    case 2
    then have "b / a \<le> 0" by (simp add: divide_le_0_iff)
    then have "arctan (b / a) \<le> 0" by (simp add: arctan_le_zero_iff)
    then show ?thesis using 2 ab pp by (simp add: atan2_def)
  next
    case 3
    then have "0 < b / a" by (simp add: zero_less_divide_iff)
    then have "0 < arctan (b / a)" by (simp add: zero_less_arctan_iff)
    then show ?thesis using 3 ab pp by (simp add: atan2_def)
  next
    case 4
    have "- (pi / 2) \<le> pi" "pi / 2 \<le> pi" "- pi < pi / 2" "- pi < - (pi / 2)" "- pi < 0"
      using pi_gt_zero by linarith+
    then show ?thesis unfolding atan2_def using 4
      by (cases "0 < b"; cases "b < 0"; simp only: if_True if_False less_irrefl; linarith)
  qed
qed

lemma atan2_polar:
  assumes r: "0 < r" and th: "- pi < th" "th \<le> pi"
  shows "atan2 (r * sin th) (r * cos th) = th"
proof -
  have q: "(r * sin th) / (r * cos th) = tan th" using r by (simp add: tan_def)
  consider "- (pi / 2) < th" "th < pi / 2" | "th = pi / 2" | "th = - (pi / 2)"
    | "pi / 2 < th" | "th < - (pi / 2)" by linarith
  then show ?thesis
  proof cases
    case 1
    then have "0 < cos th" by (rule cos_gt_zero_pi)
    then have "0 < r * cos th" using r by simp
    then show ?thesis using 1 by (simp only: atan2_def q if_True arctan_tan)
  next
    case 2
    show ?thesis unfolding 2 using r by (simp add: atan2_def)
  next
    case 3
    show ?thesis unfolding 3 using r by (simp add: atan2_def)
  next
    case 4
    let ?u = "th - pi"
    have u: "- (pi / 2) < ?u" "?u \<le> 0" using 4 th by linarith+
    then have "0 < cos ?u" by (intro cos_gt_zero_pi) (use pi_gt_zero in linarith)+
    then have c: "cos th < 0" by simp
    have "0 \<le> sin th" using 4 th by (intro sin_ge_zero) (use pi_gt_zero in linarith)+
    then have s: "0 \<le> r * sin th" using r by simp
    have c': "r * cos th < 0" using c r by (simp add: mult_less_0_iff)
    have "tan th = tan ?u" using tan_periodic_pi[of ?u] by simp
    then have "arctan (tan th) = ?u" using u arctan_tan[of ?u] pi_gt_zero by simp
    then show ?thesis unfolding atan2_def q using s c' by simp
  next
    case 5
    let ?u = "th + pi"
    have u: "0 < ?u" "?u < pi / 2" using 5 th by linarith+
    then have "0 < cos ?u" by (intro cos_gt_zero_pi) (use pi_gt_zero in linarith)+
    then have c: "cos th < 0" by simp
    have "0 < sin ?u" using u by (intro sin_gt_zero) (use pi_gt_zero in linarith)+
    then have "sin th < 0" by simp
    then have s: "r * sin th < 0" using r by (simp add: mult_less_0_iff)
    have c': "r * cos th < 0" using c r by (simp add: mult_less_0_iff)
    have "tan th = tan ?u" by simp
    then have "arctan (tan th) = ?u" using u arctan_tan[of ?u] pi_gt_zero by simp
    then show ?thesis unfolding atan2_def q using s c' by simp
  qed
qed

text \<open>The normalisation of the course over ground: add 360 to a negative angle.\<close>

lemma toDegrees_toRadians: "toDegrees (toRadians d) = d"
  by (simp add: toDegrees_def toRadians_def)

lemma cog_of_heading:
  assumes s: "0 < s"
  shows "(if toDegrees (atan2 (s * sin (toRadians h)) (s * cos (toRadians h))) < 0
          then toDegrees (atan2 (s * sin (toRadians h)) (s * cos (toRadians h))) + 360
          else toDegrees (atan2 (s * sin (toRadians h)) (s * cos (toRadians h))))
         = h - 360 * of_int \<lfloor>h / 360\<rfloor>"
proof -
  define k :: int where "k = \<lceil>(h - 180) / 360\<rceil>"
  define d where "d = h - 360 * of_int k"
  have k1: "(h - 180) / 360 \<le> of_int k" unfolding k_def by (rule le_of_int_ceiling)
  have k2: "of_int k < (h - 180) / 360 + 1"
    unfolding k_def using ceiling_correct[of "(h - 180) / 360"] by linarith
  have d1: "- 180 < d" and d2: "d \<le> 180" using k1 k2 unfolding d_def by (simp_all add: field_simps)
  define th where "th = toRadians d"
  have th: "- pi < th" "th \<le> pi"
  proof -
    have "- 180 * pi < d * pi" using d1 by (intro mult_strict_right_mono) auto
    then show "- pi < th" unfolding th_def toRadians_def by simp
    have "d * pi \<le> 180 * pi" using d2 by (intro mult_right_mono) auto
    then show "th \<le> pi" unfolding th_def toRadians_def by simp
  qed
  have "toRadians h = th + 2 * pi * of_int k"
    unfolding th_def d_def toRadians_def by (simp add: field_simps)
  then have sc: "sin (toRadians h) = sin th \<and> cos (toRadians h) = cos th"
    unfolding sin_cos_eq_iff by blast
  have "atan2 (s * sin (toRadians h)) (s * cos (toRadians h)) = th"
    using atan2_polar[OF s th] sc by simp
  then have c0: "toDegrees (atan2 (s * sin (toRadians h)) (s * cos (toRadians h))) = d"
    by (simp add: th_def toDegrees_toRadians)
  show ?thesis
  proof (cases "d < 0")
    case True
    have "\<lfloor>h / 360\<rfloor> = k - 1"
      by (rule floor_unique) (use True d1 in \<open>simp_all add: d_def field_simps\<close>)
    then show ?thesis using True by (simp add: c0 d_def)
  next
    case False
    have "\<lfloor>h / 360\<rfloor> = k"
      by (rule floor_unique) (use False d2 in \<open>simp_all add: d_def field_simps\<close>)
    then show ?thesis using False by (simp add: c0 d_def)
  qed
qed


lemma twa_getTackingAngles: "twa (getTackingAngles wd ws) = getUpwindTWA ws"
  by (simp add: getTackingAngles_def Let_def)

lemma fmod_nonneg:
  assumes "0 \<le> a"
  shows "0 \<le> fmod a 360 \<and> fmod a 360 < 360"
proof -
  have "0 \<le> a / 360" using assms by simp
  then have t: "trunc (a / 360) = \<lfloor>a / 360\<rfloor>" by (simp add: trunc_def)
  have "of_int \<lfloor>a / 360\<rfloor> \<le> a / 360" "a / 360 < of_int \<lfloor>a / 360\<rfloor> + 1"
    by linarith+
  then show ?thesis unfolding fmod_def t by (simp add: field_simps)
qed

lemma floor_heading: "0 \<le> h \<Longrightarrow> h < 360 \<Longrightarrow> h - 360 * of_int \<lfloor>h / 360\<rfloor> = (h::real)"
proof -
  assume "0 \<le> h" "h < 360"
  then have "\<lfloor>h / 360\<rfloor> = 0" by (simp add: floor_eq_iff)
  then show ?thesis by simp
qed

lemma upwind_speed_pos: "0 \<le> w \<Longrightarrow> 0 < calculateBoatSpeed (getUpwindTWA w) w"
proof -
  assume "0 \<le> w"
  then have "3 \<le> baseMaxSpeed w" by (simp add: baseMaxSpeed_def Let_def min_def field_simps)
  then show ?thesis by (simp add: speed_at_optTWA)
qed

lemma sog_no_current: "0 < s \<Longrightarrow> sqrt ((s * sin t)\<^sup>2 + (s * cos t)\<^sup>2) = s"
proof -
  assume s: "0 < s"
  have "(s * sin t)\<^sup>2 + (s * cos t)\<^sup>2 = s\<^sup>2 * (sin t)\<^sup>2 + s\<^sup>2 * (cos t)\<^sup>2"
    by (simp only: power_mult_distrib)
  also have "\<dots> = s\<^sup>2 * ((sin t)\<^sup>2 + (cos t)\<^sup>2)"
    by (simp only: distrib_left)
  also have "\<dots> = s\<^sup>2" by (simp only: sin_cos_squared_add mult_1_right)
  finally show ?thesis using s by simp
qed

lemma gv_no_current:
  assumes w: "0 \<le> ws"
  shows "cog (getGroundVector wd ws cd 0 tack)
           = heading (getGroundVector wd ws cd 0 tack)
               - 360 * of_int \<lfloor>heading (getGroundVector wd ws cd 0 tack) / 360\<rfloor>"
    and "sog (getGroundVector wd ws cd 0 tack) = calculateBoatSpeed (getUpwindTWA ws) ws"
proof -
  let ?s = "calculateBoatSpeed (getUpwindTWA ws) ws"
  have s: "0 < ?s" using w by (rule upwind_speed_pos)
  let ?h = "heading (getGroundVector wd ws cd 0 tack)"
  let ?c0 = "toDegrees (atan2 (?s * sin (toRadians ?h)) (?s * cos (toRadians ?h)))"
  have "cog (getGroundVector wd ws cd 0 tack) = (if ?c0 < 0 then ?c0 + 360 else ?c0)"
    by (cases tack) (simp_all add: getGroundVector_def groundVel_def twa_getTackingAngles Let_def)
  also have "\<dots> = ?h - 360 * of_int \<lfloor>?h / 360\<rfloor>"
    by (rule cog_of_heading[OF s])
  finally show "cog (getGroundVector wd ws cd 0 tack) = ?h - 360 * of_int \<lfloor>?h / 360\<rfloor>" .
  show "sog (getGroundVector wd ws cd 0 tack) = ?s"
    using sog_no_current[OF s]
    by (cases tack) (simp_all add: getGroundVector_def groundVel_def twa_getTackingAngles Let_def)
qed

lemma heading_range:
  assumes "0 \<le> wd"
  shows "0 \<le> heading (getGroundVector wd ws cd cs tack) \<and> heading (getGroundVector wd ws cd cs tack) < 360"
proof -
  have o: "38 \<le> getUpwindTWA ws" "getUpwindTWA ws \<le> 50" using getUpwindTWA_range by auto
  show ?thesis
  proof (cases tack)
    case Port
    have "0 \<le> wd + getUpwindTWA ws" using assms o by linarith
    then show ?thesis using fmod_nonneg Port
      by (simp add: getGroundVector_def twa_getTackingAngles Let_def)
  next
    case Stbd
    have "0 \<le> wd - getUpwindTWA ws + 360" using assms o by linarith
    then show ?thesis using fmod_nonneg Stbd
      by (simp add: getGroundVector_def twa_getTackingAngles Let_def)
  qed
qed

text \<open>
  In exact arithmetic the normalised course over ground stays below 360; the doubles do not
  keep this bound, as the last theorem of this section shows.
\<close>

lemma cog_range: "0 \<le> cog (getGroundVector wd ws cd cs tack) \<and> cog (getGroundVector wd ws cd cs tack) < 360"
proof -
  let ?g = "groundVel wd ws cd cs tack"
  let ?r = "atan2 (px ?g) (py ?g)"
  have r: "- pi < ?r" "?r \<le> pi" using atan2_range by auto
  have "- pi * 180 < ?r * 180" using r(1) by simp
  then have "- pi * 180 / pi < ?r * 180 / pi" by (intro divide_strict_right_mono) auto
  then have l: "- 180 < toDegrees ?r" by (simp add: toDegrees_def)
  have "?r * 180 \<le> pi * 180" using r(2) by simp
  then have "?r * 180 / pi \<le> pi * 180 / pi" by (intro divide_right_mono) auto
  then have u: "toDegrees ?r \<le> 180" by (simp add: toDegrees_def)
  show ?thesis using l u by (simp add: getGroundVector_def Let_def)
qed

lemma sog_nonneg: "0 \<le> sog (getGroundVector wd ws cd cs tack)"
  by (simp add: getGroundVector_def Let_def)

lemma zero_vel: "groundVel wd ws cd cs tack = \<lparr> px = 0, py = 0 \<rparr> \<Longrightarrow>
   cog (getGroundVector wd ws cd cs tack) = 0 \<and> sog (getGroundVector wd ws cd cs tack) = 0"
  by (simp add: getGroundVector_def Let_def atan2_def toDegrees_def)


text \<open>
  Claim C7.  With no current (\<open>currentSpeed = 0\<close>) and a wind speed of the data model
  (\<open>windSpeed \<ge> 0\<close>), the course over ground is the heading modulo 360, that is the heading
  brought into \<open>[0, 360)\<close>, and it is the heading itself for a wind direction \<open>\<ge> 0\<close>; the
  speed over ground is \<open>calculateBoatSpeed\<close> at the upwind angle of that wind speed.
\<close>

theorem ground_vector_without_current:
  "0 \<le> ws \<Longrightarrow>
     cog (getGroundVector wd ws cd 0 tack)
       = heading (getGroundVector wd ws cd 0 tack)
           - 360 * of_int \<lfloor>heading (getGroundVector wd ws cd 0 tack) / 360\<rfloor>
     \<and> (0 \<le> wd \<longrightarrow>
          cog (getGroundVector wd ws cd 0 tack)
            = heading (getGroundVector wd ws cd 0 tack))
     \<and> sog (getGroundVector wd ws cd 0 tack)
          = calculateBoatSpeed (getUpwindTWA ws) ws"
  using gv_no_current [of ws wd cd tack]
        heading_range [of wd ws cd 0 tack]
        floor_heading [of "heading (getGroundVector wd ws cd 0 tack)"]
  by auto

theorem ground_vector_without_current_witness:
  "(0::real) \<le> 12 \<and> (0::real) \<le> 0
   \<and> cog (getGroundVector 0 12 90 0 Port) = heading (getGroundVector 0 12 90 0 Port)
   \<and> sog (getGroundVector 0 12 90 0 Port) = calculateBoatSpeed (getUpwindTWA 12) 12"
  using ground_vector_without_current [where ws = 12 and wd = 0 and cd = 90
          and tack = Port]
  by simp

lemma normalizeCogDouble_tiny:
  assumes "- (1 / 2 ^ 45) < c" "c < 0"
  shows "normalizeCogDouble c = 360"
  using assms add360 by (simp add: normalizeCogDouble_def)

text \<open>
  Claim C10 asks the course over ground to lie in \<open>[0, 360)\<close> for every input.  On doubles the
  statement \<open>if (cog < 0) cog += 360\<close> returns exactly 360 for every angle between \<open>-2^-45\<close>
  degrees and 0, since the sum is nearer to 360 than to the double below it.  For
  \<open>getGroundVector(0, 4, 310, 3.4, 'port')\<close> the boat velocity and the current mirror each other
  about the y axis, the rounded sines leave an x component of about \<open>-4.4e-16\<close>, and the angle of
  the ground velocity is the double \<open>-7379314338429377 / 2^100\<close> (about \<open>-5.8e-15\<close> degrees): the
  course over ground returned is 360, which is not below 360.
\<close>

theorem cog_rounds_to_360:
  "normalizeCogDouble (- 7379314338429377 / 2 ^ 100) = 360
   \<and> \<not> normalizeCogDouble (- 7379314338429377 / 2 ^ 100) < 360"
proof -
  have "normalizeCogDouble (- 7379314338429377 / 2 ^ 100) = 360"
    by (rule normalizeCogDouble_tiny) simp_all
  then show ?thesis by simp
qed

section \<open>Collapsing layline corners\<close>

lemma left_collapse:
  assumes "xgt (portLaylineX cfg) (px (pinLocWorld cfg))
           \<or> (case leftIntersection cfg of Some p \<Rightarrow> py p < 0 | None \<Rightarrow> False)"
  shows "leftCornerWorld cfg = Some (pinLocWorld cfg)"
  using assms by (auto simp: leftCornerWorld_def Let_def split: option.splits)

lemma right_collapse:
  assumes "xlt (stbdLaylineX cfg) (px (rcLocWorld cfg))
           \<or> (case rightIntersection cfg of Some p \<Rightarrow> py p < 0 | None \<Rightarrow> False)"
  shows "rightCornerWorld cfg = Some (rcLocWorld cfg)"
  using assms by (auto simp: rightCornerWorld_def Let_def split: option.splits)

lemma sin_cos_90: "sin (toRadians 90) = 1" "cos (toRadians 90) = 0"
  by (simp_all add: toRadians_def)


text \<open>
  The configuration \<open>cfg270\<close>: both layline corners collapse to the start marks, so the playing
  field is the triangle pin, mark, RC.
\<close>

lemma cfg270_fields:
  "windDirection cfg270 = 270" "windSpeed cfg270 = 12" "currentDirection cfg270 = 90"
  "currentSpeed cfg270 = 0" "courseLength cfg270 = 1000" "startLineLength cfg270 = 200"
  "startLineBias cfg270 = 0" "markShift cfg270 = 0" "showZones cfg270"
  by (simp_all add: cfg270_def DEFAULT_CONFIG_def)

lemma twa12: "getUpwindTWA 12 = 41.2"
  by (simp add: getUpwindTWA_def Let_def)

lemma marks270:
  "pinLocWorld cfg270 = \<lparr> px = - 100, py = 0 \<rparr>"
  "rcLocWorld cfg270 = \<lparr> px = 100, py = 0 \<rparr>"
  "markLocWorld cfg270 = \<lparr> px = 0, py = 1000 \<rparr>"
  by (simp_all add: pinLocWorld_def rcLocWorld_def markLocWorld_def rotatePoint_def cfg270_fields
      Let_def toRadians_def)

lemma cog_eq_heading:
  assumes "0 \<le> ws" "0 \<le> wd"
  shows "cog (getGroundVector wd ws cd 0 tack) = heading (getGroundVector wd ws cd 0 tack)"
  using gv_no_current(1)[OF assms(1), of wd cd tack] heading_range[OF assms(2), of ws cd 0 tack]
        floor_heading[of "heading (getGroundVector wd ws cd 0 tack)"]
  by simp

lemma fmod_small: "0 \<le> a \<Longrightarrow> a < 360 \<Longrightarrow> fmod a 360 = a"
proof -
  assume a: "0 \<le> a" "a < 360"
  then have "\<lfloor>a / 360\<rfloor> = 0" by (simp add: floor_eq_iff)
  then show ?thesis using a by (simp add: fmod_def trunc_def)
qed

lemma fmod_once: "360 \<le> a \<Longrightarrow> a < 720 \<Longrightarrow> fmod a 360 = a - 360"
proof -
  assume a: "360 \<le> a" "a < 720"
  then have "\<lfloor>a / 360\<rfloor> = 1" by (simp add: floor_eq_iff)
  then show ?thesis using a by (simp add: fmod_def trunc_def)
qed


lemma cogs270: "cog (portData cfg270) = 311.2" "cog (stbdData cfg270) = 228.8"
proof -
  have "cog (portData cfg270) = heading (portData cfg270)"
    unfolding portData_def cfg270_fields by (rule cog_eq_heading) simp_all
  also have "\<dots> = 311.2"
    by (simp add: portData_def cfg270_fields getGroundVector_def twa_getTackingAngles twa12 Let_def fmod_small fmod_once)
  finally show "cog (portData cfg270) = 311.2" .
  have "cog (stbdData cfg270) = heading (stbdData cfg270)"
    unfolding stbdData_def cfg270_fields by (rule cog_eq_heading) simp_all
  also have "\<dots> = 228.8"
    by (simp add: stbdData_def cfg270_fields getGroundVector_def twa_getTackingAngles twa12 Let_def fmod_small fmod_once)
  finally show "cog (stbdData cfg270) = 228.8" .
qed

lemma layline_angles270: "markPortLaylineAngle cfg270 = 131.2" "markStbdLaylineAngle cfg270 = 48.8"
  by (simp_all add: markPortLaylineAngle_def markStbdLaylineAngle_def cogs270 fmod_small fmod_once)


lemma cos_120: "cos (2 * pi / 3) = - (1 / 2)"
proof -
  have "2 * pi / 3 = pi - pi / 3" by simp
  then have "cos (2 * pi / 3) = cos (pi - pi / 3)" by simp
  also have "\<dots> = - cos (pi / 3)" by (rule cos_pi_minus)
  finally show ?thesis by (simp add: cos_60)
qed

text \<open>Between 120 and 180 degrees the cosine is at most \<open>-1/2\<close> and the tangent is not positive.\<close>

lemma obtuse_angle:
  assumes "120 \<le> a" "a < 180"
  shows "cos (toRadians a) \<le> - (1 / 2)" "tan (toRadians a) < 0"
proof -
  let ?x = "toRadians a"
  have x: "2 * pi / 3 \<le> ?x" "?x < pi"
    using assms pi_gt_zero by (simp_all add: toRadians_def field_simps)
  have "cos ?x \<le> cos (2 * pi / 3)"
    using x pi_gt_zero by (intro cos_monotone_0_pi_le) simp_all
  then show c: "cos ?x \<le> - (1 / 2)" by (simp add: cos_120)
  have "0 < ?x" using x(1) pi_gt_zero by linarith
  then have "0 < sin ?x" using x(2) by (rule sin_gt_zero)
  then show "tan ?x < 0" using c unfolding tan_def by (simp add: divide_less_0_iff)
qed

lemma acute_angle:
  assumes "0 < a" "a \<le> 60"
  shows "1 / 2 \<le> cos (toRadians a)" "0 < tan (toRadians a)"
proof -
  let ?x = "toRadians a"
  have x: "0 < ?x" "?x \<le> pi / 3"
    using assms pi_gt_zero by (simp_all add: toRadians_def field_simps)
  have "cos (pi / 3) \<le> cos ?x"
    using x pi_gt_zero by (intro cos_monotone_0_pi_le) simp_all
  then show c: "1 / 2 \<le> cos ?x" by (simp add: cos_60)
  have "?x < pi" using x(2) pi_gt_zero by linarith
  then have "0 < sin ?x" using x(1) by (intro sin_gt_zero)
  then show "0 < tan ?x" using c unfolding tan_def by (simp add: zero_less_divide_iff)
qed

lemma corners270:
  "leftCornerWorld cfg270 = Some \<lparr> px = - 100, py = 0 \<rparr>"
  "rightCornerWorld cfg270 = Some \<lparr> px = 100, py = 0 \<rparr>"
proof -
  have p: "cos (toRadians 131.2) \<le> - (1 / 2)" "tan (toRadians 131.2) < 0"
    by (rule obtuse_angle; simp)+
  have "portLaylineX cfg270 = Finite (- 1000 * tan (toRadians 131.2))"
    using p(1) by (simp add: portLaylineX_def layline_angles270 getXAtY0_def cfg270_fields Let_def)
  moreover have "- 100 < - 1000 * tan (toRadians 131.2)" using p(2) by linarith
  ultimately have "xgt (portLaylineX cfg270) (px (pinLocWorld cfg270))"
    by (simp add: marks270)
  then show "leftCornerWorld cfg270 = Some \<lparr> px = - 100, py = 0 \<rparr>"
    using left_collapse[of cfg270] by (simp add: marks270)
  have s: "1 / 2 \<le> cos (toRadians 48.8)" "0 < tan (toRadians 48.8)"
    by (rule acute_angle; simp)+
  have "stbdLaylineX cfg270 = Finite (- 1000 * tan (toRadians 48.8))"
    using s(1) by (simp add: stbdLaylineX_def layline_angles270 getXAtY0_def cfg270_fields Let_def)
  moreover have "- 1000 * tan (toRadians 48.8) < 100" using s(2) by linarith
  ultimately have "xlt (stbdLaylineX cfg270) (px (rcLocWorld cfg270))"
    by (simp add: marks270)
  then show "rightCornerWorld cfg270 = Some \<lparr> px = 100, py = 0 \<rparr>"
    using right_collapse[of cfg270] by (simp add: marks270)
qed


lemma tan_ge_self:
  fixes x :: real
  assumes "0 \<le> x" "x < pi / 2"
  shows "x \<le> tan x"
proof -
  let ?f = "\<lambda>u. tan u - u"
  have d: "\<exists>y. (?f has_real_derivative y) (at u) \<and> 0 \<le> y" if u: "0 \<le> u" "u \<le> x" for u
  proof -
    have c: "0 < cos u" using u assms by (intro cos_gt_zero_pi) (use pi_gt_zero in linarith)+
    then have nz: "cos u \<noteq> 0" by simp
    have "(?f has_real_derivative (inverse ((cos u)\<^sup>2) - 1)) (at u)"
      by (intro derivative_intros DERIV_tan nz)
    moreover have "0 \<le> inverse ((cos u)\<^sup>2) - 1"
    proof -
      have "(cos u)\<^sup>2 \<le> 1" by (simp add: power_le_one_iff abs_square_le_1)
      moreover have "0 < (cos u)\<^sup>2" using c by simp
      ultimately have "1 \<le> inverse ((cos u)\<^sup>2)" by (simp add: one_le_inverse_iff)
      then show ?thesis by simp
    qed
    ultimately show ?thesis by blast
  qed
  have "?f 0 \<le> ?f x" by (rule DERIV_nonneg_imp_nondecreasing[OF assms(1)]) (use d in blast)
  then show ?thesis by simp
qed

lemma tan_le_double:
  fixes x :: real
  assumes "0 \<le> x" "x \<le> pi / 3"
  shows "tan x \<le> 2 * x"
proof -
  have "cos (pi / 3) \<le> cos x" using assms pi_gt_zero by (intro cos_monotone_0_pi_le) simp_all
  then have c: "1 / 2 \<le> cos x" by (simp add: cos_60)
  have s: "sin x \<le> x" using assms(1) by (rule sin_x_le_x)
  have "tan x = sin x / cos x" by (simp add: tan_def)
  also have "\<dots> \<le> x / cos x" using s c by (intro divide_right_mono) auto
  also have "\<dots> \<le> x / (1 / 2)" using c assms(1) by (intro divide_left_mono) auto
  finally show ?thesis by simp
qed

text \<open>
  With no mark shift and a layline that is not within the tolerance of the horizontal, the value
  of \<open>getXAtY0\<close> is the abscissa at which the mark layline meets \<open>y = 0\<close>; the corner rules then
  read as the specification words them.
\<close>

lemma getXAtY0_spec:
  assumes "markShift cfg = 0" "0.001 \<le> \<bar>cos (toRadians a)\<bar>"
  shows "getXAtY0 a (courseLength cfg) = Finite (specXIntercept cfg a)"
  using assms by (simp add: getXAtY0_def specXIntercept_def markLocWorld_def Let_def)

lemma left_collapse_spec:
  assumes "markShift cfg = 0 \<and> 0.001 \<le> \<bar>cos (toRadians (markPortLaylineAngle cfg))\<bar>
             \<and> specXIntercept cfg (markPortLaylineAngle cfg) > px (pinLocWorld cfg)
           \<or> (case leftIntersection cfg of Some p \<Rightarrow> py p < 0 | None \<Rightarrow> False)"
  shows "leftCornerWorld cfg = Some (pinLocWorld cfg)"
proof (rule left_collapse)
  show "xgt (portLaylineX cfg) (px (pinLocWorld cfg))
        \<or> (case leftIntersection cfg of Some p \<Rightarrow> py p < 0 | None \<Rightarrow> False)"
    using assms by (auto simp: portLaylineX_def getXAtY0_spec)
qed

lemma right_collapse_spec:
  assumes "markShift cfg = 0 \<and> 0.001 \<le> \<bar>cos (toRadians (markStbdLaylineAngle cfg))\<bar>
             \<and> specXIntercept cfg (markStbdLaylineAngle cfg) < px (rcLocWorld cfg)
           \<or> (case rightIntersection cfg of Some p \<Rightarrow> py p < 0 | None \<Rightarrow> False)"
  shows "rightCornerWorld cfg = Some (rcLocWorld cfg)"
proof (rule right_collapse)
  show "xlt (stbdLaylineX cfg) (px (rcLocWorld cfg))
        \<or> (case rightIntersection cfg of Some p \<Rightarrow> py p < 0 | None \<Rightarrow> False)"
    using assms by (auto simp: stbdLaylineX_def getXAtY0_spec)
qed

text \<open>
  The configuration \<open>cfg319\<close>: the mark is shifted by 300 metres, which \<open>getXAtY0\<close> does not
  take into account.
\<close>

lemma cfg319_fields:
  "windDirection cfg319 = 319" "windSpeed cfg319 = 4" "currentDirection cfg319 = 90"
  "currentSpeed cfg319 = 0" "courseLength cfg319 = 1000" "startLineLength cfg319 = 200"
  "startLineBias cfg319 = 0" "markShift cfg319 = 300"
  by (simp_all add: cfg319_def DEFAULT_CONFIG_def)

lemma marks319:
  "pinLocWorld cfg319 = \<lparr> px = - 100, py = 0 \<rparr>"
  "markLocWorld cfg319 = \<lparr> px = 300, py = 1000 \<rparr>"
  by (simp_all add: pinLocWorld_def markLocWorld_def rotatePoint_def cfg319_fields
      Let_def toRadians_def)

lemma twa4: "getUpwindTWA 4 = 50"
  by (simp add: getUpwindTWA_def)

lemma cogs319: "cog (portData cfg319) = 9" "cog (stbdData cfg319) = 269"
proof -
  have "cog (portData cfg319) = heading (portData cfg319)"
    unfolding portData_def cfg319_fields by (rule cog_eq_heading) simp_all
  also have "\<dots> = 9"
    by (simp add: portData_def cfg319_fields getGroundVector_def twa_getTackingAngles
        twa4 Let_def fmod_once)
  finally show "cog (portData cfg319) = 9" .
  have "cog (stbdData cfg319) = heading (stbdData cfg319)"
    unfolding stbdData_def cfg319_fields by (rule cog_eq_heading) simp_all
  also have "\<dots> = 269"
    by (simp add: stbdData_def cfg319_fields getGroundVector_def twa_getTackingAngles
        twa4 Let_def fmod_once)
  finally show "cog (stbdData cfg319) = 269" .
qed

lemma layline_angle319: "markPortLaylineAngle cfg319 = 189"
  by (simp add: markPortLaylineAngle_def cogs319 fmod_small)


text \<open>The tangent of 9 degrees lies between 0.1 and 0.4.\<close>

lemma nine_degrees:
  "1 / 10 \<le> tan (toRadians 9)" "tan (toRadians 9) < 4 / 10"
  "1 / 2 \<le> cos (toRadians 9)" "0 < sin (toRadians 9)"
proof -
  have e: "toRadians 9 = pi / 20" by (simp add: toRadians_def)
  have "pi / 20 \<le> tan (pi / 20)" using pi_gt_zero by (intro tan_ge_self) simp_all
  then show "1 / 10 \<le> tan (toRadians 9)" unfolding e using pi_ge_two by linarith
  have "tan (pi / 20) \<le> 2 * (pi / 20)" using pi_gt_zero by (intro tan_le_double) simp_all
  then show "tan (toRadians 9) < 4 / 10" unfolding e using pi_less_4 by linarith
  show "1 / 2 \<le> cos (toRadians 9)" by (rule acute_angle) simp_all
  have "0 < tan (toRadians 9)" by (rule acute_angle) simp_all
  have "0 < sin (pi / 20)" using pi_gt_zero by (intro sin_gt_zero) simp_all
  then show "0 < sin (toRadians 9)" unfolding e .
qed

lemma toRadians_plus_180: "toRadians (a + 180) = toRadians a + pi"
  by (simp add: toRadians_def field_simps)

lemma angle_189:
  "sin (toRadians 189) = - sin (toRadians 9)" "cos (toRadians 189) = - cos (toRadians 9)"
  "tan (toRadians 189) = tan (toRadians 9)"
proof -
  have e: "toRadians 189 = toRadians 9 + pi" using toRadians_plus_180[of 9] by simp
  show "sin (toRadians 189) = - sin (toRadians 9)" "cos (toRadians 189) = - cos (toRadians 9)"
    "tan (toRadians 189) = tan (toRadians 9)"
    unfolding e by simp_all
qed

lemma cos_269: "cos (toRadians 269) < 0"
proof -
  have e: "toRadians 269 = toRadians 89 + pi" using toRadians_plus_180[of 89] by simp
  have "0 < cos (toRadians 89)"
    using pi_gt_zero by (intro cos_gt_zero_pi) (simp_all add: toRadians_def)
  then show ?thesis unfolding e by simp
qed

lemma det_319: "lineDet 269 189 \<le> - (1 / 2)"
proof -
  have "lineDet 269 189 = sin (- (4 * pi / 9))"
    unfolding lineDet_sin by (simp add: toRadians_def)
  also have "\<dots> = - sin (4 * pi / 9)" by simp
  finally have d: "lineDet 269 189 = - sin (4 * pi / 9)" .
  have "sin (pi / 6) \<le> sin (4 * pi / 9)"
    using pi_gt_zero by (intro sin_monotone_2pi_le) simp_all
  then show ?thesis unfolding d by (simp add: sin_30)
qed


lemma intersect_some:
  assumes "\<not> \<bar>lineDet a1 a2\<bar> < 0.0001"
  shows "intersectLines p1 a1 p2 a2
           = Some \<lparr> px = px p1 + ((px p2 - px p1) * (- cos (toRadians a2))
                                    - (py p2 - py p1) * (- sin (toRadians a2))) / lineDet a1 a2
                                 * sin (toRadians a1),
                     py = py p1 + ((px p2 - px p1) * (- cos (toRadians a2))
                                    - (py p2 - py p1) * (- sin (toRadians a2))) / lineDet a1 a2
                                 * cos (toRadians a1) \<rparr>"
  using assms by (simp add: intersectLines_def Let_def)

lemma left319:
  "\<exists>p. leftIntersection cfg319 = Some p \<and> leftCornerWorld cfg319 = Some p \<and> 0 < py p"
proof -
  let ?C = "cos (toRadians 9)" and ?S = "sin (toRadians 9)" and ?d = "lineDet 269 189"
  let ?N = "400 * ?C - 1000 * ?S"
  have d: "?d \<le> - (1 / 2)" by (rule det_319)
  then have nd: "\<not> \<bar>?d\<bar> < 0.0001" by simp
  have C: "0 < ?C" using nine_degrees(3) by linarith
  have "?S = tan (toRadians 9) * ?C" using C by (simp add: tan_def)
  then have "?N = ?C * (400 - 1000 * tan (toRadians 9))" by (simp add: algebra_simps)
  moreover have "0 < 400 - 1000 * tan (toRadians 9)" using nine_degrees(2) by linarith
  ultimately have N: "0 < ?N" using C by simp
  have T: "?N / ?d < 0" using N d by (simp add: divide_less_0_iff)
  define p where "p = \<lparr> px = - 100 + ?N / ?d * sin (toRadians 269),
                          py = 0 + ?N / ?d * cos (toRadians 269) \<rparr>"
  have li: "leftIntersection cfg319 = Some p"
    unfolding leftIntersection_def cogs319 layline_angle319 marks319 p_def
    by (subst intersect_some[OF nd]) (simp add: angle_189)
  have "0 < ?N / ?d * cos (toRadians 269)" using T cos_269 by (rule mult_neg_neg)
  then have y: "0 < py p" unfolding p_def by simp
  have "\<not> xgt (portLaylineX cfg319) (px (pinLocWorld cfg319))"
    using nine_degrees(1,3)
    by (simp add: portLaylineX_def layline_angle319 getXAtY0_def cfg319_fields marks319 Let_def angle_189)
  then have "leftCornerWorld cfg319 = Some p"
    using li y by (simp add: leftCornerWorld_def Let_def)
  then show ?thesis using li y by blast
qed

lemma intercept319:
  "specXIntercept cfg319 (markPortLaylineAngle cfg319) > px (pinLocWorld cfg319)"
  using nine_degrees(2) by (simp add: specXIntercept_def layline_angle319 marks319 angle_189)

lemma not_pin319:
  "\<not> (case leftIntersection cfg319 of Some p \<Rightarrow> py p < 0 | None \<Rightarrow> False)"
  "leftCornerWorld cfg319 \<noteq> Some (pinLocWorld cfg319)"
  using left319 by (auto simp: marks319)


text \<open>
  Claim C4 asks the left corner to collapse to the pin whenever the port mark-layline meets
  \<open>y = 0\<close> at an abscissa above that of the pin.  For \<open>cfg319\<close> the port mark-layline runs from the
  mark \<open>(300, 1000)\<close> along 189 degrees and meets \<open>y = 0\<close> at \<open>300 - 1000 * tan 9\<close> (degrees), above the
  abscissa \<open>-100\<close> of the pin; \<open>getXAtY0\<close> leaves the mark shift out and yields
  \<open>- 1000 * tan 9 \<le> -100\<close>, so the first rule does not fire, the analytic intersection lies above
  \<open>y = 0\<close>, and the left corner is not the pin.
\<close>

theorem corner_not_collapsed:
  "markPortLaylineAngle cfg319 = 189
   \<and> specXIntercept cfg319 (markPortLaylineAngle cfg319) > px (pinLocWorld cfg319)
   \<and> \<not> (case leftIntersection cfg319 of Some p \<Rightarrow> py p < 0 | None \<Rightarrow> False)
   \<and> leftCornerWorld cfg319 \<noteq> Some (pinLocWorld cfg319)"
  using layline_angle319 intercept319 not_pin319 by simp

section \<open>Ladder rungs\<close>






text \<open>
  At a course length of 3000 the double product is \<open>3300 + 2^-41\<close>, the quotient rounds to a
  double above 33, and the loop bound is 34, one more than the exact ceiling.
\<close>

lemma numRungs_3000:
  "courseLength cfg = 3000 \<Longrightarrow> numRungs cfg = 34 \<and> \<lceil>courseLength cfg * 1.1 / 100\<rceil> = 33"
proof -
  assume c: "courseLength cfg = 3000"
  have "numRungs cfg = \<lceil>roundDouble (roundDouble (3000 * double_1_1) / 100)\<rceil>"
    by (simp only: numRungs_def c)
  also have "\<dots> = 34" by (simp only: prod3000 quot3300 ceil3000)
  finally show ?thesis using c by simp
qed




















section \<open>Zones\<close>

text \<open>Sine and cosine of \<open>atan2\<close> of a vector other than zero.\<close>

lemma atan2_sin_cos:
  assumes nz: "a \<noteq> 0 \<or> b \<noteq> 0"
  shows "sin (atan2 b a) = b / sqrt (a\<^sup>2 + b\<^sup>2)" "cos (atan2 b a) = a / sqrt (a\<^sup>2 + b\<^sup>2)"
proof -
  define r where "r = sqrt (a\<^sup>2 + b\<^sup>2)"
  have p: "0 < a\<^sup>2 + b\<^sup>2" using nz by (auto simp: sum_power2_gt_zero_iff)
  then have r: "0 < r" unfolding r_def by (rule real_sqrt_gt_zero)
  have r2: "r\<^sup>2 = a\<^sup>2 + b\<^sup>2" unfolding r_def by simp
  have "(a / r)\<^sup>2 + (b / r)\<^sup>2 = (a\<^sup>2 + b\<^sup>2) / r\<^sup>2"
    by (simp add: power_divide add_divide_distrib)
  also have "\<dots> = 1" unfolding r2 by (rule divide_self) (use p in linarith)
  finally have "(a / r)\<^sup>2 + (b / r)\<^sup>2 = 1" .
  then obtain t where t: "0 \<le> t" "t < 2 * pi" "a / r = cos t" "b / r = sin t"
    using sincos_total_2pi by blast
  define th where "th = (if t \<le> pi then t else t - 2 * pi)"
  have th: "- pi < th" "th \<le> pi" using t(1,2) pi_gt_zero unfolding th_def by (auto; linarith)+
  have sc: "sin th = sin t" "cos th = cos t" unfolding th_def by (simp_all add: sin_diff cos_diff) 
  have ab: "b = r * sin th" "a = r * cos th" using t(3,4) r sc by (simp_all add: field_simps)
  have "atan2 (r * sin th) (r * cos th) = th" using r th by (rule atan2_polar)
  then have e: "atan2 b a = th" using ab by simp
  show "sin (atan2 b a) = b / sqrt (a\<^sup>2 + b\<^sup>2)" unfolding e r_def[symmetric] using ab r by simp
  show "cos (atan2 b a) = a / sqrt (a\<^sup>2 + b\<^sup>2)" unfolding e r_def[symmetric] using ab r by simp
qed

text \<open>Adding 360 to a negative angle in degrees leaves sine and cosine unchanged.\<close>

lemma norm_deg_trig:
  "sin (toRadians (if toDegrees th < 0 then toDegrees th + 360 else toDegrees th)) = sin th"
  "cos (toRadians (if toDegrees th < 0 then toDegrees th + 360 else toDegrees th)) = cos th"
proof -
  have a: "toRadians (toDegrees th) = th" by (simp add: toRadians_def toDegrees_def)
  have b: "toRadians (toDegrees th + 360) = th + 2 * pi"
    by (simp add: toRadians_def toDegrees_def field_simps)
  show "sin (toRadians (if toDegrees th < 0 then toDegrees th + 360 else toDegrees th)) = sin th"
    by (simp add: a b)
  show "cos (toRadians (if toDegrees th < 0 then toDegrees th + 360 else toDegrees th)) = cos th"
    by (simp add: a b)
qed

lemma angleFromMark_trig:
  assumes "px c - px (markLocWorld cfg) \<noteq> 0 \<or> py c - py (markLocWorld cfg) \<noteq> 0"
  shows "sin (toRadians (angleFromMark cfg c))
           = (px c - px (markLocWorld cfg))
             / sqrt ((py c - py (markLocWorld cfg))\<^sup>2 + (px c - px (markLocWorld cfg))\<^sup>2)"
    and "cos (toRadians (angleFromMark cfg c))
           = (py c - py (markLocWorld cfg))
             / sqrt ((py c - py (markLocWorld cfg))\<^sup>2 + (px c - px (markLocWorld cfg))\<^sup>2)"
  using atan2_sin_cos[of "py c - py (markLocWorld cfg)" "px c - px (markLocWorld cfg)"] assms
  by (auto simp add: angleFromMark_def Let_def norm_deg_trig)

lemma tan_bisect:
  assumes "cos (toRadians a1) + cos (toRadians a2) \<noteq> 0"
  shows "tan (toRadians (bisect a1 a2))
           = (sin (toRadians a1) + sin (toRadians a2)) / (cos (toRadians a1) + cos (toRadians a2))"
proof -
  let ?xs = "sin (toRadians a1) + sin (toRadians a2)" and ?ys = "cos (toRadians a1) + cos (toRadians a2)"
  let ?r = "sqrt (?ys\<^sup>2 + ?xs\<^sup>2)"
  have n: "?ys \<noteq> 0 \<or> ?xs \<noteq> 0" using assms by simp
  have "0 < ?ys\<^sup>2 + ?xs\<^sup>2" using assms by (auto simp: sum_power2_gt_zero_iff)
  then have "0 < ?r" by (rule real_sqrt_gt_zero)
  then have r: "?r \<noteq> 0" by (rule less_imp_neq[THEN not_sym])
  have "tan (toRadians (bisect a1 a2)) = sin (atan2 ?xs ?ys) / cos (atan2 ?xs ?ys)"
    by (simp add: bisect_def Let_def tan_def norm_deg_trig)
  also have "\<dots> = (?xs / ?r) / (?ys / ?r)"
    using atan2_sin_cos[OF n] by simp
  also have "\<dots> = ?xs / ?ys" using r by simp
  finally show ?thesis .
qed


lemma sqrt_1010000: "1000 < sqrt 1010000"
  by (rule real_less_rsqrt) simp

lemma angleL270:
  "sin (toRadians (angleFromMark cfg270 \<lparr> px = - 100, py = 0 \<rparr>)) = - 100 / sqrt 1010000"
  "cos (toRadians (angleFromMark cfg270 \<lparr> px = - 100, py = 0 \<rparr>)) = - 1000 / sqrt 1010000"
  using angleFromMark_trig[of "\<lparr> px = - 100, py = 0 \<rparr>" cfg270]
  by (simp_all add: marks270)

lemma angleR270:
  "sin (toRadians (angleFromMark cfg270 \<lparr> px = 100, py = 0 \<rparr>)) = 100 / sqrt 1010000"
  "cos (toRadians (angleFromMark cfg270 \<lparr> px = 100, py = 0 \<rparr>)) = - 1000 / sqrt 1010000"
  using angleFromMark_trig[of "\<lparr> px = 100, py = 0 \<rparr>" cfg270]
  by (simp_all add: marks270)

lemma warn_lines270:
  "getXOnLine cfg270 (bisect 90 (angleFromMark cfg270 \<lparr> px = - 100, py = 0 \<rparr>)) yv
     = (1000 - yv) * (sqrt 1010000 - 100) / 1000"
  "getXOnLine cfg270 (bisect 90 (angleFromMark cfg270 \<lparr> px = 100, py = 0 \<rparr>)) yv
     = (1000 - yv) * (sqrt 1010000 + 100) / 1000"
proof -
  let ?r = "sqrt 1010000"
  have r: "0 < ?r" using sqrt_1010000 by linarith
  have nz: "- 1000 / ?r \<noteq> 0" using r by simp
  have "tan (toRadians (bisect 90 (angleFromMark cfg270 \<lparr> px = - 100, py = 0 \<rparr>)))
          = (1 + - 100 / ?r) / (0 + - 1000 / ?r)"
    using nz by (subst tan_bisect) (simp_all add: angleL270 sin_cos_90)
  also have "\<dots> = - (?r - 100) / 1000" using r by (simp add: field_simps)
  finally have tL: "tan (toRadians (bisect 90 (angleFromMark cfg270 \<lparr> px = - 100, py = 0 \<rparr>)))
          = - (?r - 100) / 1000" .
  show "getXOnLine cfg270 (bisect 90 (angleFromMark cfg270 \<lparr> px = - 100, py = 0 \<rparr>)) yv
     = (1000 - yv) * (sqrt 1010000 - 100) / 1000"
    unfolding getXOnLine_def Let_def tL by (simp add: marks270 field_simps)
  have "tan (toRadians (bisect 90 (angleFromMark cfg270 \<lparr> px = 100, py = 0 \<rparr>)))
          = (1 + 100 / ?r) / (0 + - 1000 / ?r)"
    using nz by (subst tan_bisect) (simp_all add: angleR270 sin_cos_90)
  also have "\<dots> = - (?r + 100) / 1000" using r by (simp add: field_simps)
  finally have tR: "tan (toRadians (bisect 90 (angleFromMark cfg270 \<lparr> px = 100, py = 0 \<rparr>)))
          = - (?r + 100) / 1000" .
  show "getXOnLine cfg270 (bisect 90 (angleFromMark cfg270 \<lparr> px = 100, py = 0 \<rparr>)) yv
     = (1000 - yv) * (sqrt 1010000 + 100) / 1000"
    unfolding getXOnLine_def Let_def tR by (simp add: marks270 field_simps)
qed

lemma poly_xs270:
  "0 < yv \<Longrightarrow> getXOnPoly cfg270 True yv = - 100 + yv / 10"
  "0 < yv \<Longrightarrow> getXOnPoly cfg270 False yv = 100 - yv / 10"
  by (simp_all add: getXOnPoly_def corners270 marks270 Let_def)

lemma warnXs270:
  "warnXs cfg270 (bisect 90 (angleFromMark cfg270 \<lparr> px = - 100, py = 0 \<rparr>))
      (bisect 90 (angleFromMark cfg270 \<lparr> px = 100, py = 0 \<rparr>)) 150
     = (17 / 40 * sqrt 1010000, 17 / 40 * sqrt 1010000)"
  "warnXs cfg270 (bisect 90 (angleFromMark cfg270 \<lparr> px = - 100, py = 0 \<rparr>))
      (bisect 90 (angleFromMark cfg270 \<lparr> px = 100, py = 0 \<rparr>)) 850
     = (3 / 40 * sqrt 1010000, 3 / 40 * sqrt 1010000)"
  using sqrt_1010000
  by (simp_all add: warnXs_def warn_lines270 poly_xs270 Let_def max_def min_def field_simps)


lemma field270:
  "fieldPolygonWorld cfg270
     = [\<lparr> px = - 100, py = 0 \<rparr>, \<lparr> px = - 100, py = 0 \<rparr>, \<lparr> px = 0, py = 1000 \<rparr>,
        \<lparr> px = 100, py = 0 \<rparr>, \<lparr> px = 100, py = 0 \<rparr>]"
  by (simp add: fieldPolygonWorld_def corners270 marks270)

lemma green270:
  "map_option green (zonesWorld cfg270)
     = Some [\<lparr> px = 3 / 40 * sqrt 1010000, py = 850 \<rparr>, \<lparr> px = 3 / 40 * sqrt 1010000, py = 850 \<rparr>,
             \<lparr> px = 17 / 40 * sqrt 1010000, py = 150 \<rparr>, \<lparr> px = 17 / 40 * sqrt 1010000, py = 150 \<rparr>]"
proof -
  have w: "fmod (windDirection cfg270 + 180) 360 = 90"
    by (simp add: cfg270_fields fmod_once)
  show ?thesis
    by (simp add: zonesWorld_def corners270 cfg270_fields(5,9) w warnXs270 Let_def)
qed

lemma far_right: "425 < 17 / 40 * sqrt 1010000"
  using sqrt_1010000 by simp


text \<open>
  Claim C5 asks every zone polygon to lie inside the playing-field polygon.  The code clamps the
  left warning line only from the left and the right one only from the right, and merges them to
  their middle when they cross.  For \<open>cfg270\<close> the playing field is the triangle with vertices
  \<open>(-100, 0)\<close>, \<open>(0, 1000)\<close>, \<open>(100, 0)\<close>, no point of which has an abscissa above 100, while the
  two lower vertices of the green zone have the abscissa \<open>17/40 * sqrt 1010000 > 425\<close>: the green
  zone is not contained in the playing field.
\<close>

theorem zone_outside_field:
  "fieldPolygonWorld cfg270
     = [\<lparr> px = - 100, py = 0 \<rparr>, \<lparr> px = - 100, py = 0 \<rparr>, \<lparr> px = 0, py = 1000 \<rparr>,
        \<lparr> px = 100, py = 0 \<rparr>, \<lparr> px = 100, py = 0 \<rparr>]
   \<and> map_option green (zonesWorld cfg270)
     = Some [\<lparr> px = 3 / 40 * sqrt 1010000, py = 850 \<rparr>, \<lparr> px = 3 / 40 * sqrt 1010000, py = 850 \<rparr>,
             \<lparr> px = 17 / 40 * sqrt 1010000, py = 150 \<rparr>, \<lparr> px = 17 / 40 * sqrt 1010000, py = 150 \<rparr>]
   \<and> 425 < 17 / 40 * sqrt 1010000"
  using field270 green270 far_right by simp

end
